theory Spec2Isabelle
  imports Main "HOL-Library.List_Lexorder"
begin

chapter \<open>The embedding\<close>

section \<open>Path helpers (helpers.ts)\<close>

text \<open>
  JavaScript strings are modelled as \<^typ>\<open>string\<close>. \<open>path.sep\<close> of Node.js is
  \<open>/\<close> on POSIX and a backslash on Windows; the platform is a parameter of every function that
  reads it.
\<close>

datatype platform = Posix | Win32

definition path_sep :: "platform \<Rightarrow> char" where
  "path_sep p = (case p of Posix \<Rightarrow> CHR ''/'' | Win32 \<Rightarrow> CHR 0x5C)"

text \<open>\<open>String.prototype.split\<close> with a one-character separator: the empty string splits into
  one empty segment.\<close>

fun split :: "char \<Rightarrow> string \<Rightarrow> string list" where
  "split sep [] = [[]]"
| "split sep (c # cs) =
     (if c = sep then [] # split sep cs
      else (case split sep cs of [] \<Rightarrow> [[c]] | seg # segs \<Rightarrow> (c # seg) # segs))"

text \<open>\<open>Array.prototype.join\<close>.\<close>

fun join :: "string \<Rightarrow> string list \<Rightarrow> string" where
  "join d [] = []"
| "join d [x] = x"
| "join d (x # y # ys) = x @ d @ join d (y # ys)"

text \<open>\<open>String.prototype.startsWith\<close>.\<close>

definition startsWith :: "string \<Rightarrow> string \<Rightarrow> bool" where
  "startsWith s p = (take (length p) s = p)"

text \<open>
  \<^verbatim>\<open>
  export function normalizePath(input: string): string {
    let unixPath = input.split(path.sep).join("/");
    if (!unixPath.startsWith("..") && !unixPath.startsWith("./")) {
      unixPath = "./" + unixPath;
    }
    return unixPath;
  }
  \<close>
\<close>

definition normalizePath :: "platform \<Rightarrow> string \<Rightarrow> string" where
  "normalizePath plat input =
     (let unixPath = join ''/'' (split (path_sep plat) input)
      in if \<not> startsWith unixPath ''..'' \<and> \<not> startsWith unixPath ''./''
         then ''./'' @ unixPath else unixPath)"

text \<open>
  \<^verbatim>\<open>
  export function getRelayCompilerLanguage(useTypescript: boolean): "typescript" | "javascript" {
    if (useTypescript) { return "typescript"; } else { return "javascript"; }
  }
  \<close>
\<close>

definition getRelayCompilerLanguage :: "bool \<Rightarrow> string" where
  "getRelayCompilerLanguage useTypescript = (if useTypescript then ''typescript'' else ''javascript'')"

subsection \<open>Node.js \<open>path.join\<close> on POSIX\<close>

text \<open>
  \<open>path.join\<close> belongs to the Node.js standard library, not to the repository. It is modelled
  here from the library's documented POSIX behaviour: the arguments are joined with \<open>/\<close> and the
  result is normalized segment by segment. Empty segments and \<open>.\<close> are dropped; \<open>..\<close> removes
  the segment before it, is kept in front of a relative path when there is nothing left to remove,
  and is dropped at the root of an absolute path. \<open>normalizeString\<close> keeps the name of the
  library's internal function, and works on the list of segments between slashes.
\<close>

fun normalizeString :: "bool \<Rightarrow> string list \<Rightarrow> string list \<Rightarrow> string list" where
  "normalizeString allowAboveRoot res [] = res"
| "normalizeString allowAboveRoot res (seg # segs) =
     (if seg = [] \<or> seg = ''.'' then normalizeString allowAboveRoot res segs
      else if seg = ''..'' then
        (if res \<noteq> [] \<and> last res \<noteq> ''..'' then normalizeString allowAboveRoot (butlast res) segs
         else if allowAboveRoot then normalizeString allowAboveRoot (res @ [''..'']) segs
         else normalizeString allowAboveRoot res segs)
      else normalizeString allowAboveRoot (res @ [seg]) segs)"

definition path_normalize :: "string \<Rightarrow> string" where
  "path_normalize path =
     (if path = [] then ''.''
      else
        let isAbsolute = (hd path = CHR ''/'');
            trailingSeparator = (last path = CHR ''/'');
            p = join ''/'' (normalizeString (\<not> isAbsolute) [] (split CHR ''/'' path))
        in if p = [] then (if isAbsolute then ''/'' else if trailingSeparator then ''./'' else ''.'')
           else (if isAbsolute then ''/'' else []) @ p @ (if trailingSeparator then ''/'' else []))"

definition path_join :: "string \<Rightarrow> string \<Rightarrow> string" where
  "path_join a b =
     (if a = [] \<and> b = [] then ''.''
      else if a = [] then path_normalize b
      else if b = [] then path_normalize a
      else path_normalize (a @ ''/'' @ b))"

subsection \<open>Looking for a file\<close>

text \<open>
  JavaScript truthiness of a \<open>string | null\<close>: \<open>null\<close> and the empty string are falsy.
\<close>

definition truthy :: "string option \<Rightarrow> bool" where
  "truthy v = (case v of None \<Rightarrow> False | Some s \<Rightarrow> s \<noteq> [])"

text \<open>The tests \<open>if (!filepath) throw ...\<close> of the tasks: a falsy path is no path.\<close>

definition existingFile :: "string option \<Rightarrow> string option" where
  "existingFile v = (if truthy v then v else None)"

text \<open>
  The directory listing \<open>fs.readdir\<close> is a parameter: \<open>None\<close> when it rejects, which the
  \<open>try/catch\<close> of the source turns into \<open>null\<close>.
  \<^verbatim>\<open>
  export async function findFileInDirectory(directory, filename): Promise<string | null> {
    try {
      const filenames = await fs.readdir(directory);
      for (const name of filenames) {
        if (name === filename) {
          const filepath = path.join(directory, filename);
          return filepath;
        }
      }
    } catch {}
    return null;
  }
  \<close>
\<close>

definition findFileInDirectory ::
  "(string \<Rightarrow> string list option) \<Rightarrow> string \<Rightarrow> string \<Rightarrow> string option" where
  "findFileInDirectory readdir directory filename =
     (case readdir directory of
        None \<Rightarrow> None
      | Some filenames \<Rightarrow>
          if filename \<in> set filenames then Some (path_join directory filename) else None)"

text \<open>
  The loop of \<open>traverseUpToFindFile\<close> may run forever, so the function is partial: the outer
  \<open>None\<close> is "does not return", \<open>Some None\<close> is the result \<open>null\<close> and \<open>Some (Some p)\<close> the
  file path \<open>p\<close>. The one-second pause at the head of each iteration has no effect on the result
  and is left out.
  \<^verbatim>\<open>
  export async function traverseUpToFindFile(directory, filename): Promise<string | null> {
    let currentDirectory = directory;
    let previousDirectory: string | null = null;
    while (!!currentDirectory) {
      await new Promise((resolve) => setTimeout(resolve, 1000));
      const filepath = await findFileInDirectory(currentDirectory, filename);
      if (!!filepath) { return filepath; }
      previousDirectory = currentDirectory;
      currentDirectory = path.join(currentDirectory, "..");
      if (previousDirectory === currentDirectory) { break; }   // We reached the root.
    }
    return null;
  }
  \<close>
\<close>

partial_function (option) traverseUpToFindFile ::
  "(string \<Rightarrow> string list option) \<Rightarrow> string \<Rightarrow> string \<Rightarrow> string option option" where
  "traverseUpToFindFile readdir filename currentDirectory =
     (if currentDirectory = [] then Some None
      else
        let filepath = findFileInDirectory readdir currentDirectory filename
        in if truthy filepath then Some filepath
           else
             let nextDirectory = path_join currentDirectory ''..''
             in if currentDirectory = nextDirectory then Some None
                else traverseUpToFindFile readdir filename nextDirectory)"

declare traverseUpToFindFile.simps [code]

text \<open>Vocabulary for the statements about the upward search.\<close>

definition parentDirectory :: "string \<Rightarrow> string" where
  "parentDirectory d = path_join d ''..''"

definition isAbsolute :: "string \<Rightarrow> bool" where
  "isAbsolute d = (d \<noteq> [] \<and> hd d = CHR ''/'')"

definition directoryContains :: "(string \<Rightarrow> string list option) \<Rightarrow> string \<Rightarrow> string \<Rightarrow> bool" where
  "directoryContains readdir directory filename =
     (case readdir directory of None \<Rightarrow> False | Some filenames \<Rightarrow> filename \<in> set filenames)"

text \<open>
  \<open>upward_result readdir f d r\<close>: \<open>r\<close> is the path of \<open>f\<close> inside the first directory that
  contains it among \<open>d\<close>, its parent, its grandparent, ...; or \<open>r\<close> is \<open>null\<close> and none of them
  contains \<open>f\<close>.
\<close>

definition upward_result ::
  "(string \<Rightarrow> string list option) \<Rightarrow> string \<Rightarrow> string \<Rightarrow> string option \<Rightarrow> bool" where
  "upward_result readdir f d r =
     (case r of
        Some p \<Rightarrow> (\<exists>k. directoryContains readdir ((parentDirectory ^^ k) d) f \<and>
                       p = path_join ((parentDirectory ^^ k) d) f \<and>
                       (\<forall>j<k. \<not> directoryContains readdir ((parentDirectory ^^ j) d) f))
      | None \<Rightarrow> (\<forall>k. \<not> directoryContains readdir ((parentDirectory ^^ k) d) f))"

text \<open>A disk on which every directory is empty.\<close>

definition empty_disk :: "string \<Rightarrow> string list option" where
  "empty_disk d = Some []"

text \<open>
  Segments as \<open>normalizeString\<close> leaves them in an absolute path: not empty, neither \<open>.\<close>
  nor \<open>..\<close>, without a slash.
\<close>

definition clean :: "string list \<Rightarrow> bool" where
  "clean segs = (\<forall>seg\<in>set segs. seg \<noteq> [] \<and> seg \<noteq> ''.'' \<and> seg \<noteq> ''..'' \<and> CHR ''/'' \<notin> set seg)"

text \<open>
  The normalized segments of an absolute directory, and the absolute path of a list of
  segments.
\<close>

definition segments :: "string \<Rightarrow> string list" where
  "segments d = normalizeString False [] (split CHR ''/'' d)"

definition absolute_of :: "string list \<Rightarrow> string" where
  "absolute_of segs = (if segs = [] then ''/'' else ''/'' @ join ''/'' segs)"

text \<open>The measure of the upward search from an absolute directory.\<close>

definition height :: "string \<Rightarrow> nat" where
  "height d = 2 * length (segments d) + (if d = ''/'' then 0 else 1)"

text \<open>The relative directories \<open>..\<close>, \<open>../..\<close>, \<open>../../..\<close>, ... as lists of segments.\<close>

definition dotdots :: "nat \<Rightarrow> string list" where
  "dotdots n = replicate n ''..''"

text \<open>The states from which the search on the empty disk never returns.\<close>

definition ascends_forever :: "(string \<Rightarrow> string list option) \<Rightarrow> string \<Rightarrow> bool" where
  "ascends_forever readdir d = (readdir = empty_disk \<and> (\<exists>n. d = join ''/'' (dotdots (Suc n))))"

section \<open>The syntax tree (Babel)\<close>

text \<open>
  The tasks work on the syntax tree of \<open>@babel/parser\<close>, whose nodes carry a type tag that the
  code tests with \<open>t.isX\<close>. Every node type that the code tests or builds is a constructor; any
  other node is \<open>Other\<close> with its type name and its children in traversal order. Only the
  fields that the code reads are kept. An array element may be missing (a hole), and the
  argument of \<open>return\<close>, the value of a JSX attribute and the initializer of a declarator are
  optional. \<open>JSXElement\<close> holds the name and the attributes of its opening element, the name of
  its closing element and its children.
\<close>

datatype import_specifier =
    ImportSpecifier string string
  | ImportDefaultSpecifier string
  | ImportNamespaceSpecifier string

datatype jsx_name =
    JSXIdentifier string
  | JSXMemberExpression jsx_name string
  | JSXNamespacedName string string

datatype node =
    Program "node list"
  | Identifier string
  | StringLiteral string
  | ObjectExpression "node list"
  | ObjectProperty node node
  | ArrayExpression "node option list"
  | CallExpression node "node list"
  | MemberExpression node node
  | AssignmentExpression string node node
  | JSXElement jsx_name "node list" "jsx_name option" "node list"
  | JSXAttribute jsx_name "node option"
  | JSXExpressionContainer node
  | ReturnStatement "node option"
  | VariableDeclarator node "node option"
  | ImportDeclaration "import_specifier list" string
  | ExportDefaultDeclaration node
  | Other string "node list"

subsection \<open>Children and positions\<close>

text \<open>
  \<open>kids\<close> lists the children of a node in the order in which \<open>@babel/traverse\<close> visits them,
  and \<open>set_kids\<close> puts a list of children back. A position in a tree is the list of child
  indices that leads to it from the root; it stands for the reference that JavaScript holds to a
  node object, and \<open>replace_at\<close> is the in-place update of the node at a position.
\<close>

fun present :: "'a option list \<Rightarrow> 'a list" where
  "present [] = []"
| "present (None # xs) = present xs"
| "present (Some x # xs) = x # present xs"

fun refill :: "'a option list \<Rightarrow> 'a list \<Rightarrow> 'a option list" where
  "refill [] ks = []"
| "refill (None # xs) ks = None # refill xs ks"
| "refill (Some x # xs) [] = Some x # refill xs []"
| "refill (Some x # xs) (k # ks) = Some k # refill xs ks"

definition opt_kid :: "'a option \<Rightarrow> 'a list" where
  "opt_kid v = (case v of None \<Rightarrow> [] | Some x \<Rightarrow> [x])"

definition opt_refill :: "'a option \<Rightarrow> 'a list \<Rightarrow> 'a option" where
  "opt_refill v ks =
     (case v of None \<Rightarrow> None | Some x \<Rightarrow> (case ks of [] \<Rightarrow> Some x | k # _ \<Rightarrow> Some k))"

fun kids :: "node \<Rightarrow> node list" where
  "kids (Program body) = body"
| "kids (Identifier name) = []"
| "kids (StringLiteral v) = []"
| "kids (ObjectExpression properties) = properties"
| "kids (ObjectProperty k v) = [k, v]"
| "kids (ArrayExpression elements) = present elements"
| "kids (CallExpression callee arguments) = callee # arguments"
| "kids (MemberExpression ob property) = [ob, property]"
| "kids (AssignmentExpression operator left right) = [left, right]"
| "kids (JSXElement name attributes closing children) = attributes @ children"
| "kids (JSXAttribute name v) = opt_kid v"
| "kids (JSXExpressionContainer e) = [e]"
| "kids (ReturnStatement argument) = opt_kid argument"
| "kids (VariableDeclarator ident init) = ident # opt_kid init"
| "kids (ImportDeclaration specifiers source) = []"
| "kids (ExportDefaultDeclaration declaration) = [declaration]"
| "kids (Other ty children) = children"

fun set_kids :: "node \<Rightarrow> node list \<Rightarrow> node" where
  "set_kids (Program body) ks = Program ks"
| "set_kids (ObjectExpression properties) ks = ObjectExpression ks"
| "set_kids (ObjectProperty k v) ks =
     (case ks of [k', v'] \<Rightarrow> ObjectProperty k' v' | _ \<Rightarrow> ObjectProperty k v)"
| "set_kids (ArrayExpression elements) ks = ArrayExpression (refill elements ks)"
| "set_kids (CallExpression callee arguments) ks =
     (case ks of [] \<Rightarrow> CallExpression callee arguments | c # as \<Rightarrow> CallExpression c as)"
| "set_kids (MemberExpression ob property) ks =
     (case ks of [ob', property'] \<Rightarrow> MemberExpression ob' property'
      | _ \<Rightarrow> MemberExpression ob property)"
| "set_kids (AssignmentExpression operator left right) ks =
     (case ks of [left', right'] \<Rightarrow> AssignmentExpression operator left' right'
      | _ \<Rightarrow> AssignmentExpression operator left right)"
| "set_kids (JSXElement name attributes closing children) ks =
     JSXElement name (take (length attributes) ks) closing (drop (length attributes) ks)"
| "set_kids (JSXAttribute name v) ks = JSXAttribute name (opt_refill v ks)"
| "set_kids (JSXExpressionContainer e) ks =
     (case ks of [e'] \<Rightarrow> JSXExpressionContainer e' | _ \<Rightarrow> JSXExpressionContainer e)"
| "set_kids (ReturnStatement argument) ks = ReturnStatement (opt_refill argument ks)"
| "set_kids (VariableDeclarator ident init) ks =
     (case ks of [] \<Rightarrow> VariableDeclarator ident init
      | i # rest \<Rightarrow> VariableDeclarator i (opt_refill init rest))"
| "set_kids (ExportDefaultDeclaration declaration) ks =
     (case ks of [d] \<Rightarrow> ExportDefaultDeclaration d | _ \<Rightarrow> ExportDefaultDeclaration declaration)"
| "set_kids (Other ty children) ks = Other ty ks"
| "set_kids n ks = n"

fun subtree :: "node \<Rightarrow> nat list \<Rightarrow> node option" where
  "subtree n [] = Some n"
| "subtree n (i # p) = (if i < length (kids n) then subtree (kids n ! i) p else None)"

fun replace_at :: "node \<Rightarrow> nat list \<Rightarrow> node \<Rightarrow> node" where
  "replace_at n [] new = new"
| "replace_at n (i # p) new =
     (if i < length (kids n) then set_kids n ((kids n)[i := replace_at (kids n ! i) p new]) else n)"

text \<open>The number of nodes of a tree, the measure of every traversal.\<close>

primrec weight :: "node \<Rightarrow> nat" where
  "weight (Program body) = Suc (sum_list (map weight body))"
| "weight (Identifier name) = 1"
| "weight (StringLiteral v) = 1"
| "weight (ObjectExpression properties) = Suc (sum_list (map weight properties))"
| "weight (ObjectProperty k v) = Suc (weight k + weight v)"
| "weight (ArrayExpression elements) = Suc (sum_list (present (map (map_option weight) elements)))"
| "weight (CallExpression callee arguments) = Suc (weight callee + sum_list (map weight arguments))"
| "weight (MemberExpression ob property) = Suc (weight ob + weight property)"
| "weight (AssignmentExpression operator left right) = Suc (weight left + weight right)"
| "weight (JSXElement name attributes closing children) =
     Suc (sum_list (map weight attributes) + sum_list (map weight children))"
| "weight (JSXAttribute name v) = Suc (sum_list (opt_kid (map_option weight v)))"
| "weight (JSXExpressionContainer e) = Suc (weight e)"
| "weight (ReturnStatement argument) = Suc (sum_list (opt_kid (map_option weight argument)))"
| "weight (VariableDeclarator ident init) =
     Suc (weight ident + sum_list (opt_kid (map_option weight init)))"
| "weight (ImportDeclaration specifiers source) = 1"
| "weight (ExportDefaultDeclaration declaration) = Suc (weight declaration)"
| "weight (Other ty children) = Suc (sum_list (map weight children))"

lemma present_map: "present (map (map_option f) xs) = map f (present xs)"
  by (induction xs rule: present.induct) auto

lemma opt_kid_map: "opt_kid (map_option f x) = map f (opt_kid x)"
  by (cases x) (simp_all add: opt_kid_def)

lemma weight_kids: "weight n = Suc (sum_list (map weight (kids n)))"
  by (cases n) (simp_all add: present_map opt_kid_map)

text \<open>
  The positions of the assignment expressions of a tree, in traversal order (a node before its
  children, the children from left to right).
\<close>

function assignment_paths :: "node \<Rightarrow> nat list list"
  and assignment_paths_list :: "nat \<Rightarrow> node list \<Rightarrow> nat list list" where
  "assignment_paths n =
     (case n of AssignmentExpression operator left right \<Rightarrow> [[]] | _ \<Rightarrow> []) @
     assignment_paths_list 0 (kids n)"
| "assignment_paths_list i [] = []"
| "assignment_paths_list i (k # ks) =
     map ((#) i) (assignment_paths k) @ assignment_paths_list (Suc i) ks"
  by pat_completeness auto
termination
  by (relation "measure (\<lambda>x. case x of Inl n \<Rightarrow> 2 * weight n
                                | Inr (i, ks) \<Rightarrow> 2 * sum_list (map weight ks) + 1)")
     (auto simp: weight_kids)

section \<open>Files, parser and printer\<close>

text \<open>
  The file system is the collaborator of every task: directory listings, file contents and the
  existence test, together with the log of the writes and of the directories created. The type
  of file contents is a parameter. \<open>parseAst\<close> and \<open>printAst\<close> of \<open>ast.ts\<close> are not among the
  sources; each task takes them as parameters \<open>parseAst :: 't \<Rightarrow> node option\<close> (\<open>None\<close> when
  the parser throws) and \<open>printAst :: node \<Rightarrow> 't \<Rightarrow> 't\<close>. Every \<open>fs.writeFile\<close> of the
  tasks writes to a file that the task has found in the listing of its directory and has read,
  so \<open>writeFile\<close> has no failing case.
\<close>

record 't filesystem =
  readdir :: "string \<Rightarrow> string list option"
  readFile :: "string \<Rightarrow> 't option"
  exists :: "string \<Rightarrow> bool"
  written :: "(string \<times> 't) list"
  created :: "string list"

definition writeFile :: "'t filesystem \<Rightarrow> string \<Rightarrow> 't \<Rightarrow> 't filesystem" where
  "writeFile fs filepath content =
     fs\<lparr>readFile := (readFile fs)(filepath \<mapsto> content), written := written fs @ [(filepath, content)]\<rparr>"

text \<open>
  \<open>fs.copyFile(src, dest)\<close> rejects when the source cannot be read and when the directory
  of the destination is missing; otherwise the destination holds the content of the source. A
  directory is there when it can be listed or when the existence test finds it. The directory
  of a destination is \<open>path.join(dest, "..")\<close>, the destinations of the tasks being results
  of \<open>path.join\<close>.
\<close>

definition directoryPresent :: "'t filesystem \<Rightarrow> string \<Rightarrow> bool" where
  "directoryPresent fs dir = (readdir fs dir \<noteq> None \<or> exists fs dir)"

definition copyFile :: "'t filesystem \<Rightarrow> string \<Rightarrow> string \<Rightarrow> 't filesystem option" where
  "copyFile fs src dest =
     (case readFile fs src of
        None \<Rightarrow> None
      | Some content \<Rightarrow>
          if directoryPresent fs (parentDirectory dest) then Some (writeFile fs dest content)
          else None)"

definition createDirectory :: "'t filesystem \<Rightarrow> string \<Rightarrow> 't filesystem" where
  "createDirectory fs dir = fs\<lparr>exists := (exists fs)(dir := True), created := created fs @ [dir]\<rparr>"

text \<open>
  Every \<open>throw\<close> of the tasks is a value. The constructors stand for the messages of the source:
  \<open>FileNotFound f\<close> for \<open>`${f} not found`\<close>, \<open>ExpectedModuleExports\<close> for "Expected to find a
  module.exports assignment that exports the Next.js configuration ...", \<open>InvalidVariableReference\<close>
  for "module.exports ... references a variable, which is not a valid object definition.",
  \<open>CompilerPropertyError\<close> and \<open>PluginsPropertyError\<close> for "Could not create or get a ...
  property ...", \<open>ExpectedDefineConfig\<close> for "Expected a export default defineConfig({}) ...",
  \<open>JsxNotFound\<close> for "Could not find JSX in ..." and \<open>RenderJsxNotFound\<close> for "Could not find JSX
  being passed to ReactDOM.render in ...". \<open>ReadError\<close>, \<open>CopyError\<close> and \<open>ParseError\<close> are the
  rejections of reading, copying and parsing, and \<open>TaskSkippedError\<close> is what \<open>TaskBase.skip\<close>
  throws if it throws.
\<close>

datatype task_error =
    FileNotFound string
  | ReadError string
  | CopyError string string
  | ParseError
  | UnsupportedToolchain string
  | ExpectedModuleExports
  | InvalidVariableReference
  | CompilerPropertyError
  | ExpectedDefineConfig
  | PluginsPropertyError
  | JsxNotFound
  | RenderJsxNotFound
  | TaskSkippedError string

section \<open>AddRelayPluginConfigurationTask\<close>

record project_settings =
  toolchain :: string
  projectRootDirectory :: string
  ownPackageDirectory :: string
  srcDirectoryPath :: string
  useTypescript :: bool
  artifactDirectoryPath :: "string option"

text \<open>
  \<open>consts.ts\<close> is not among the sources. The two file names are the literals that
  \<open>getToolchainSettings\<close> of \<open>helpers.ts\<close> uses for the same files.
\<close>

definition NEXTJS_CONFIG_FILE :: string where
  "NEXTJS_CONFIG_FILE = ''next.config.js''"

definition VITE_CONFIG_FILE_NO_EXT :: string where
  "VITE_CONFIG_FILE_NO_EXT = ''vite.config''"

text \<open>
  The test \<open>t.isObjectProperty(p) && t.isIdentifier(p.key) && p.key.name === name\<close> of the three
  \<open>find\<close> calls.
\<close>

definition isPropertyNamed :: "string \<Rightarrow> node \<Rightarrow> bool" where
  "isPropertyNamed name p = (case p of ObjectProperty (Identifier k) v \<Rightarrow> k = name | _ \<Rightarrow> False)"

subsection \<open>configureNext\<close>

text \<open>
  The object \<open>relay: { src, language, artifactDirectory? }\<close> that the visitor pushes (lines
  124 to 152). \<open>if (this.settings.artifactDirectoryPath)\<close> holds for a non-empty string.
\<close>

definition relayProperty :: "project_settings \<Rightarrow> node" where
  "relayProperty settings =
     ObjectProperty (Identifier ''relay'')
       (ObjectExpression
          ([ObjectProperty (Identifier ''src'') (StringLiteral (srcDirectoryPath settings)),
            ObjectProperty (Identifier ''language'')
              (StringLiteral (getRelayCompilerLanguage (useTypescript settings)))] @
           (case artifactDirectoryPath settings of
              None \<Rightarrow> []
            | Some artifactDirectory \<Rightarrow>
                if artifactDirectory = [] then []
                else [ObjectProperty (Identifier ''artifactDirectory'')
                        (StringLiteral artifactDirectory)])))"

text \<open>
  Lines 89 to 152, on the properties of the object expression \<open>objExp\<close>: find or push the
  \<open>compiler\<close> property, fail if its value is not an object expression, return if that object has
  a \<open>relay\<close> property, push the \<open>relay\<close> property otherwise. The result is the list of the
  properties of \<open>objExp\<close> after the in-place updates.
\<close>

definition configureNext_properties :: "project_settings \<Rightarrow> node list \<Rightarrow> task_error + node list" where
  "configureNext_properties settings properties =
     (let (before, compilerProperty, after) =
            (case List.extract (isPropertyNamed ''compiler'') properties of
               None \<Rightarrow> (properties, ObjectProperty (Identifier ''compiler'') (ObjectExpression []), [])
             | Some found \<Rightarrow> found)
      in case compilerProperty of
           ObjectProperty key (ObjectExpression compilerProperties) \<Rightarrow>
             if list_ex (isPropertyNamed ''relay'') compilerProperties
             then Inr (before @ compilerProperty # after)
             else Inr (before @
                       ObjectProperty key
                         (ObjectExpression (compilerProperties @ [relayProperty settings])) # after)
         | _ \<Rightarrow> Inl CompilerPropertyError)"

text \<open>The test of lines 48 to 55 on the left-hand side: \<open>module.exports\<close>.\<close>

definition isModuleExports :: "node \<Rightarrow> bool" where
  "isModuleExports left =
     (case left of
        MemberExpression (Identifier ob) (Identifier property) \<Rightarrow> ob = ''module'' \<and> property = ''exports''
      | _ \<Rightarrow> False)"

text \<open>
  The visitor of \<open>AssignmentExpression\<close> (lines 44 to 153), called on the assignment at position
  \<open>path\<close> of the tree. \<open>path.scope.getBinding\<close> is Babel's scope analysis; it is the parameter
  \<open>getBinding\<close>, which gives the position of the node that binds a name as seen from a position
  (\<open>binding.path\<close>), if there is one. The object expression that the visitor settles on is
  updated where it stands: in the declarator of the variable, or on the right of the assignment.
\<close>

definition configureNext_visitor ::
  "project_settings \<Rightarrow> (nat list \<Rightarrow> string \<Rightarrow> nat list option) \<Rightarrow> node \<Rightarrow> nat list \<Rightarrow> task_error + node" where
  "configureNext_visitor settings getBinding ast path =
     (case subtree ast path of
        Some (AssignmentExpression operator left right) \<Rightarrow>
          if operator \<noteq> ''='' \<or> \<not> isModuleExports left then Inl ExpectedModuleExports
          else
            (case right of
               Identifier name \<Rightarrow>
                 (case getBinding path name of
                    None \<Rightarrow> Inl InvalidVariableReference
                  | Some binding \<Rightarrow>
                      (case subtree ast binding of
                         Some (VariableDeclarator ident (Some (ObjectExpression properties))) \<Rightarrow>
                           (case configureNext_properties settings properties of
                              Inl e \<Rightarrow> Inl e
                            | Inr properties' \<Rightarrow>
                                Inr (replace_at ast binding
                                       (VariableDeclarator ident (Some (ObjectExpression properties')))))
                       | _ \<Rightarrow> Inl InvalidVariableReference))
             | ObjectExpression properties \<Rightarrow>
                 (case configureNext_properties settings properties of
                    Inl e \<Rightarrow> Inl e
                  | Inr properties' \<Rightarrow>
                      Inr (replace_at ast path
                             (AssignmentExpression operator left (ObjectExpression properties'))))
             | _ \<Rightarrow> Inl ExpectedModuleExports)
      | _ \<Rightarrow> Inr ast)"

text \<open>
  \<open>traverse.default(ast, { AssignmentExpression: ... })\<close>: the visitor runs on every assignment
  expression of the file in traversal order, and the first \<open>throw\<close> ends the traversal. The nodes
  that the visitor pushes hold no assignment expression, and they are appended to lists of
  properties, so the positions computed from the tree as parsed stay those of the assignments.
\<close>

fun visit_assignments ::
  "project_settings \<Rightarrow> (nat list \<Rightarrow> string \<Rightarrow> nat list option) \<Rightarrow> node \<Rightarrow> nat list list \<Rightarrow> task_error + node" where
  "visit_assignments settings getBinding ast [] = Inr ast"
| "visit_assignments settings getBinding ast (path # paths) =
     (case configureNext_visitor settings getBinding ast path of
        Inl e \<Rightarrow> Inl e
      | Inr ast' \<Rightarrow> visit_assignments settings getBinding ast' paths)"

definition configureNext_traverse ::
  "project_settings \<Rightarrow> (nat list \<Rightarrow> string \<Rightarrow> nat list option) \<Rightarrow> node \<Rightarrow> task_error + node" where
  "configureNext_traverse settings getBinding ast =
     visit_assignments settings getBinding ast (assignment_paths ast)"

text \<open>
  The whole of \<open>configureNext\<close> (lines 28 to 159). \<open>scopeOf\<close> gives the scope analysis of a
  parsed file.
\<close>

definition AddRelayPluginConfigurationTask_configureNext ::
  "('t \<Rightarrow> node option) \<Rightarrow> (node \<Rightarrow> 't \<Rightarrow> 't) \<Rightarrow> (node \<Rightarrow> nat list \<Rightarrow> string \<Rightarrow> nat list option) \<Rightarrow>
   project_settings \<Rightarrow> 't filesystem \<Rightarrow> (task_error + unit) \<times> 't filesystem" where
  "AddRelayPluginConfigurationTask_configureNext parseAst printAst scopeOf settings fs =
     (case existingFile (findFileInDirectory (readdir fs) (projectRootDirectory settings) NEXTJS_CONFIG_FILE) of
        None \<Rightarrow> (Inl (FileNotFound NEXTJS_CONFIG_FILE), fs)
      | Some configFilepath \<Rightarrow>
          (case readFile fs configFilepath of
             None \<Rightarrow> (Inl (ReadError configFilepath), fs)
           | Some configCode \<Rightarrow>
               (case parseAst configCode of
                  None \<Rightarrow> (Inl ParseError, fs)
                | Some ast \<Rightarrow>
                    (case configureNext_traverse settings (scopeOf ast) ast of
                       Inl e \<Rightarrow> (Inl e, fs)
                     | Inr ast' \<Rightarrow>
                         (Inr (), writeFile fs configFilepath (printAst ast' configCode))))))"

subsection \<open>configureVite\<close>

definition relayImportName :: string where
  "relayImportName = ''relay''"

text \<open>The visitor of \<open>Program\<close> (lines 182 to 209), on the body of the program.\<close>

definition hasRelayImport :: "node list \<Rightarrow> bool" where
  "hasRelayImport body =
     list_ex (\<lambda>s. case s of
                ImportDeclaration specifiers source \<Rightarrow>
                  list_ex (\<lambda>sp. case sp of ImportDefaultSpecifier local \<Rightarrow> local = relayImportName
                                 | _ \<Rightarrow> False) specifiers
              | _ \<Rightarrow> False) body"

definition configureVite_Program :: "node list \<Rightarrow> node list" where
  "configureVite_Program body =
     (if hasRelayImport body then body
      else ImportDeclaration [ImportDefaultSpecifier relayImportName] ''vite-plugin-relay'' # body)"

text \<open>
  The visitor of \<open>ExportDefaultDeclaration\<close> (lines 210 to 271), on the declaration that is
  exported. The result is the declaration after the in-place updates.
\<close>

definition configureVite_ExportDefaultDeclaration :: "node \<Rightarrow> task_error + node" where
  "configureVite_ExportDefaultDeclaration declaration =
     (case declaration of
        CallExpression callee arguments \<Rightarrow>
          if length arguments < 1 \<or> callee \<noteq> Identifier ''defineConfig'' then Inl ExpectedDefineConfig
          else
            (case hd arguments of
               ObjectExpression properties \<Rightarrow>
                 (let (before, pluginsProperty, after) =
                        (case List.extract (isPropertyNamed ''plugins'') properties of
                           None \<Rightarrow> (properties, ObjectProperty (Identifier ''plugins'') (ArrayExpression []), [])
                         | Some found \<Rightarrow> found)
                  in case pluginsProperty of
                       ObjectProperty key (ArrayExpression vitePlugins) \<Rightarrow>
                         if list_ex (\<lambda>p. p = Some (Identifier relayImportName)) vitePlugins
                         then Inr (CallExpression callee
                                     (ObjectExpression (before @ pluginsProperty # after) # tl arguments))
                         else Inr (CallExpression callee
                                     (ObjectExpression
                                        (before @
                                         ObjectProperty key
                                           (ArrayExpression (vitePlugins @ [Some (Identifier relayImportName)])) #
                                         after) # tl arguments))
                     | _ \<Rightarrow> Inl PluginsPropertyError)
             | _ \<Rightarrow> Inl ExpectedDefineConfig)
      | _ \<Rightarrow> Inl ExpectedDefineConfig)"

text \<open>
  \<open>traverse.default(ast, { Program: ..., ExportDefaultDeclaration: ... })\<close>: the visitor of
  \<open>Program\<close> runs first, then the one of \<open>ExportDefaultDeclaration\<close> on the statements of the
  body, where alone a module can hold a default export; the first \<open>throw\<close> ends the traversal.
\<close>

fun visit_exports :: "node list \<Rightarrow> task_error + node list" where
  "visit_exports [] = Inr []"
| "visit_exports (s # ss) =
     (case (case s of
              ExportDefaultDeclaration declaration \<Rightarrow>
                (case configureVite_ExportDefaultDeclaration declaration of
                   Inl e \<Rightarrow> Inl e
                 | Inr declaration' \<Rightarrow> Inr (ExportDefaultDeclaration declaration'))
            | _ \<Rightarrow> Inr s) of
        Inl e \<Rightarrow> Inl e
      | Inr s' \<Rightarrow> (case visit_exports ss of Inl e \<Rightarrow> Inl e | Inr ss' \<Rightarrow> Inr (s' # ss')))"

definition configureVite_traverse :: "node \<Rightarrow> task_error + node" where
  "configureVite_traverse ast =
     (case ast of
        Program body \<Rightarrow>
          (case visit_exports (configureVite_Program body) of
             Inl e \<Rightarrow> Inl e
           | Inr body' \<Rightarrow> Inr (Program body'))
      | _ \<Rightarrow> Inr ast)"

text \<open>
  Vocabulary: the call that a module exports by default lists the identifier \<open>relay\<close> in the
  array of its first \<open>plugins\<close> property, which is what the visitor tests before it pushes.
\<close>

definition listsRelay :: "node \<Rightarrow> bool" where
  "listsRelay d =
     (case d of
        CallExpression callee (ObjectExpression properties # arguments) \<Rightarrow>
          (case List.extract (isPropertyNamed ''plugins'') properties of
             Some (before, ObjectProperty key (ArrayExpression vitePlugins), after) \<Rightarrow>
               Some (Identifier relayImportName) \<in> set vitePlugins
           | _ \<Rightarrow> False)
      | _ \<Rightarrow> False)"

text \<open>
  Vocabulary: the shape of the declaration that a Vite configuration exports by default, a call
  of \<open>defineConfig\<close> whose first argument is an object expression; and what the visitor
  requires beyond that shape: the first \<open>plugins\<close> property of the object, if it has one, holds
  an array expression.
\<close>

definition definesConfig :: "node \<Rightarrow> bool" where
  "definesConfig d =
     (case d of
        CallExpression callee (ObjectExpression properties # arguments) \<Rightarrow>
          callee = Identifier ''defineConfig''
      | _ \<Rightarrow> False)"

definition pluginsIsArray :: "node \<Rightarrow> bool" where
  "pluginsIsArray d =
     (case d of
        CallExpression callee (ObjectExpression properties # arguments) \<Rightarrow>
          (case List.extract (isPropertyNamed ''plugins'') properties of
             None \<Rightarrow> True
           | Some (before, ObjectProperty key (ArrayExpression vitePlugins), after) \<Rightarrow> True
           | _ \<Rightarrow> False)
      | _ \<Rightarrow> False)"

text \<open>The whole of \<open>configureVite\<close> (lines 161 to 277).\<close>

definition AddRelayPluginConfigurationTask_configureVite ::
  "('t \<Rightarrow> node option) \<Rightarrow> (node \<Rightarrow> 't \<Rightarrow> 't) \<Rightarrow> project_settings \<Rightarrow> 't filesystem \<Rightarrow>
   (task_error + unit) \<times> 't filesystem" where
  "AddRelayPluginConfigurationTask_configureVite parseAst printAst settings fs =
     (let configFilename = VITE_CONFIG_FILE_NO_EXT @ (if useTypescript settings then ''.ts'' else ''.js'')
      in case existingFile (findFileInDirectory (readdir fs) (projectRootDirectory settings) configFilename) of
           None \<Rightarrow> (Inl (FileNotFound configFilename), fs)
         | Some configFilepath \<Rightarrow>
             (case readFile fs configFilepath of
                None \<Rightarrow> (Inl (ReadError configFilepath), fs)
              | Some configCode \<Rightarrow>
                  (case parseAst configCode of
                     None \<Rightarrow> (Inl ParseError, fs)
                   | Some ast \<Rightarrow>
                       (case configureVite_traverse ast of
                          Inl e \<Rightarrow> (Inl e, fs)
                        | Inr ast' \<Rightarrow>
                            (Inr (), writeFile fs configFilepath (printAst ast' configCode))))))"

text \<open>\<open>run\<close> (lines 15 to 26).\<close>

definition AddRelayPluginConfigurationTask_run ::
  "('t \<Rightarrow> node option) \<Rightarrow> (node \<Rightarrow> 't \<Rightarrow> 't) \<Rightarrow> (node \<Rightarrow> nat list \<Rightarrow> string \<Rightarrow> nat list option) \<Rightarrow>
   project_settings \<Rightarrow> 't filesystem \<Rightarrow> (task_error + unit) \<times> 't filesystem" where
  "AddRelayPluginConfigurationTask_run parseAst printAst scopeOf settings fs =
     (if toolchain settings = ''vite''
      then AddRelayPluginConfigurationTask_configureVite parseAst printAst settings fs
      else if toolchain settings = ''next''
      then AddRelayPluginConfigurationTask_configureNext parseAst printAst scopeOf settings fs
      else (Inl (UnsupportedToolchain (toolchain settings)), fs))"

section \<open>Ensuring an import\<close>

text \<open>
  Modelled from the spec: \<open>insertNamedImport\<close> is imported from \<open>utils\<close> by the tasks and is
  not among the sources. The spec (4.3, Import-ensure mutator): "given a module and a named
  binding to import, scans existing import declarations for one already importing that binding
  from that module; if found, reuses the existing local name; otherwise inserts a new import
  declaration at the top of the file and returns the newly bound local name."
  The function works on the body of the program and returns the new body with the local name.
\<close>

fun importedAs :: "string \<Rightarrow> import_specifier list \<Rightarrow> string option" where
  "importedAs importName [] = None"
| "importedAs importName (ImportSpecifier imported local # specifiers) =
     (if imported = importName then Some local else importedAs importName specifiers)"
| "importedAs importName (_ # specifiers) = importedAs importName specifiers"

fun existingImport :: "string \<Rightarrow> string \<Rightarrow> node list \<Rightarrow> string option" where
  "existingImport importName packageName [] = None"
| "existingImport importName packageName (ImportDeclaration specifiers source # body) =
     (if source = packageName
      then (case importedAs importName specifiers of
              Some local \<Rightarrow> Some local
            | None \<Rightarrow> existingImport importName packageName body)
      else existingImport importName packageName body)"
| "existingImport importName packageName (_ # body) = existingImport importName packageName body"

definition insertNamedImport :: "node list \<Rightarrow> string \<Rightarrow> string \<Rightarrow> node list \<times> string" where
  "insertNamedImport body importName packageName =
     (case existingImport importName packageName body of
        Some local \<Rightarrow> (body, local)
      | None \<Rightarrow> (ImportDeclaration [ImportSpecifier importName importName] packageName # body, importName))"

section \<open>Traversal with a visitor of JSX elements\<close>

text \<open>
  \<open>traverse.default(ast, { JSXElement: visitor })\<close> of \<open>@babel/traverse\<close>: the visitor is called on
  every JSX element, a node before its children and the children from left to right, with the
  parent of the node at hand. The visitor either lets the traversal go on below the node
  (\<open>Descend\<close>), or ends with \<open>path.skip()\<close>, possibly after \<open>path.replaceWith\<close>: the node it
  leaves is not traversed (\<open>Skip\<close>). The state of the traversal is what the visitor closes over.
\<close>

datatype 's visit = Descend 's | Skip 's node

function traverse ::
    "(node option \<Rightarrow> 's \<Rightarrow> node \<Rightarrow> task_error + 's visit) \<Rightarrow> node option \<Rightarrow> 's \<Rightarrow> node \<Rightarrow>
     task_error + 's \<times> node"
  and traverse_list ::
    "(node option \<Rightarrow> 's \<Rightarrow> node \<Rightarrow> task_error + 's visit) \<Rightarrow> node option \<Rightarrow> 's \<Rightarrow> node list \<Rightarrow>
     task_error + 's \<times> node list" where
  "traverse visitor parent st n =
     (case (case n of
              JSXElement name attributes closing children \<Rightarrow> visitor parent st n
            | _ \<Rightarrow> Inr (Descend st)) of
        Inl e \<Rightarrow> Inl e
      | Inr (Skip st' n') \<Rightarrow> Inr (st', n')
      | Inr (Descend st') \<Rightarrow>
          (case traverse_list visitor (Some n) st' (kids n) of
             Inl e \<Rightarrow> Inl e
           | Inr (st'', ks) \<Rightarrow> Inr (st'', set_kids n ks)))"
| "traverse_list visitor parent st [] = Inr (st, [])"
| "traverse_list visitor parent st (k # ks) =
     (case traverse visitor parent st k of
        Inl e \<Rightarrow> Inl e
      | Inr (st', k') \<Rightarrow>
          (case traverse_list visitor parent st' ks of
             Inl e \<Rightarrow> Inl e
           | Inr (st'', ks') \<Rightarrow> Inr (st'', k' # ks')))"
  by pat_completeness auto
termination
  by (relation "measure (\<lambda>x. case x of Inl (visitor, parent, st, n) \<Rightarrow> 2 * weight n
                                | Inr (visitor, parent, st, ks) \<Rightarrow> 2 * sum_list (map weight ks) + 1)")
     (auto simp: weight_kids)

declare traverse.simps [simp del]

text \<open>
  Vocabulary for the statements about the traversal. \<open>host_at isHost parent n q\<close>: the node at
  position \<open>q\<close> below \<open>n\<close> is a JSX element, and its parent (the parent of \<open>n\<close> itself is
  \<open>parent\<close>) passes the test \<open>isHost\<close>. Positions are compared as lists of child indices, in the
  lexicographic order: that is the document order of a traversal that visits a node before its
  children and the children from left to right. \<open>host_paths\<close> lists the positions of the hosts
  in that order.
\<close>

fun host_at :: "(node option \<Rightarrow> bool) \<Rightarrow> node option \<Rightarrow> node \<Rightarrow> nat list \<Rightarrow> bool" where
  "host_at isHost parent n [] =
     ((case n of JSXElement name attributes closing children \<Rightarrow> True | _ \<Rightarrow> False) \<and> isHost parent)"
| "host_at isHost parent n (i # q) = (i < length (kids n) \<and> host_at isHost (Some n) (kids n ! i) q)"

function host_paths :: "(node option \<Rightarrow> bool) \<Rightarrow> node option \<Rightarrow> node \<Rightarrow> nat list list"
  and host_paths_list :: "(node option \<Rightarrow> bool) \<Rightarrow> node option \<Rightarrow> nat \<Rightarrow> node list \<Rightarrow> nat list list" where
  "host_paths isHost parent n =
     (if host_at isHost parent n [] then [[]] else []) @ host_paths_list isHost (Some n) 0 (kids n)"
| "host_paths_list isHost parent i [] = []"
| "host_paths_list isHost parent i (k # ks) =
     map ((#) i) (host_paths isHost parent k) @ host_paths_list isHost parent (Suc i) ks"
  by pat_completeness auto
termination
  by (relation "measure (\<lambda>x. case x of Inl (isHost, parent, n) \<Rightarrow> 2 * weight n
                                | Inr (isHost, parent, i, ks) \<Rightarrow> 2 * sum_list (map weight ks) + 1)")
     (auto simp: weight_kids)

declare host_paths.simps(1) [simp del]

section \<open>AddRelayEnvironmentProviderTask\<close>

text \<open>
  \<open>ProjectContext\<close> and \<open>RelativePath\<close> are not among the sources; the records hold the fields
  that the tasks read: \<open>context.args.toolchain\<close>, \<open>context.mainFile\<close> and \<open>context.artifactPath\<close>,
  a path with its absolute form \<open>abs\<close> and its form relative to the project root \<open>rel\<close>.
\<close>

record relative_path =
  abs_path :: string
  rel_path :: string

record project_context =
  args_toolchain :: string
  mainFile :: relative_path
  artifactPath :: "relative_path option"

definition RELAY_ENV_PROVIDER :: string where
  "RELAY_ENV_PROVIDER = ''RelayEnvironmentProvider''"

definition RELAY_ENV :: string where
  "RELAY_ENV = ''RelayEnvironment''"

text \<open>
  \<open>REACT_RELAY_PACKAGE\<close> of \<open>consts.ts\<close> is not among the sources; \<open>AddRelayEnvironmentTask\<close> passes
  the literal \<open>"react-relay"\<close> to the same call.
\<close>

definition REACT_RELAY_PACKAGE :: string where
  "REACT_RELAY_PACKAGE = ''react-relay''"

text \<open>
  Modelled from the spec: \<open>TaskBase.skip\<close> is not among the sources. The spec makes Skipped an
  outcome of a task (3, Task Outcome; 7, "AlreadyApplied (not an error -- surfaces as Skipped)")
  and speaks of "an imperative early-return" (9). Whether \<open>skip\<close> records the reason and returns,
  or throws an error that the runner reports as Skipped, cannot be read off the sources: the
  parameter \<open>skipThrows\<close> covers both, and the source follows every call with \<open>return\<close>.
\<close>

definition skip :: "bool \<Rightarrow> string \<Rightarrow> task_error + string" where
  "skip skipThrows reason = (if skipThrows then Inl (TaskSkippedError reason) else Inr reason)"

text \<open>
  Modelled from the spec (3, Task Outcome): "one of {Succeeded, Skipped(reason: text),
  Failed(error)}". A task that returns with a recorded reason, or that ends by the error of \<open>skip\<close>,
  is Skipped.
\<close>

datatype task_outcome = Succeeded | Skipped string | Failed task_error

definition outcome :: "task_error + string option \<Rightarrow> task_outcome" where
  "outcome r =
     (case r of
        Inl (TaskSkippedError reason) \<Rightarrow> Skipped reason
      | Inl e \<Rightarrow> Failed e
      | Inr (Some reason) \<Rightarrow> Skipped reason
      | Inr None \<Rightarrow> Succeeded)"

text \<open>
  What the visitors close over: the flag \<open>providerWrapped\<close>, the body of the program as
  \<open>insertNamedImport\<close> reads and extends it, and the reason recorded by \<open>skip\<close>.
\<close>

record traversal_state =
  providerWrapped :: bool
  programBody :: "node list"
  skipReason :: "string option"

text \<open>
  The second half of \<open>wrapJsxInProvider\<close> (lines 140 to 159), once the two identifiers are
  ensured: the test of the name of the opening element, and the element that replaces the
  anchor. \<open>None\<close> is the early return after \<open>this.skip\<close>.
\<close>

definition openingElementName :: "node \<Rightarrow> jsx_name option" where
  "openingElementName n = (case n of JSXElement name attributes closing children \<Rightarrow> Some name | _ \<Rightarrow> None)"

definition wrapJsx :: "string \<Rightarrow> string \<Rightarrow> node \<Rightarrow> node option" where
  "wrapJsx envId envProviderId anchor =
     (if openingElementName anchor = Some (JSXIdentifier envProviderId) then None
      else Some (JSXElement (JSXIdentifier envProviderId)
                   [JSXAttribute (JSXIdentifier ''environment'')
                      (Some (JSXExpressionContainer (Identifier envId)))]
                   (Some (JSXIdentifier envProviderId))
                   [anchor]))"

text \<open>
  \<open>wrapJsxInProvider\<close> (lines 126 to 160). The result is the state and the node that stands at
  the position of the anchor afterwards.
\<close>

definition wrapJsxInProvider ::
  "bool \<Rightarrow> traversal_state \<Rightarrow> node \<Rightarrow> task_error + traversal_state \<times> node" where
  "wrapJsxInProvider skipThrows st anchor =
     (let relativeImportPath = [];
          (body1, envId) = insertNamedImport (programBody st) RELAY_ENV relativeImportPath;
          (body2, envProviderId) = insertNamedImport body1 RELAY_ENV_PROVIDER REACT_RELAY_PACKAGE;
          st' = st\<lparr>programBody := body2\<rparr>
      in case wrapJsx envId envProviderId anchor of
           None \<Rightarrow>
             (case skip skipThrows ''JSX already wrapped with RelayEnvironmentProvider'' of
                Inl e \<Rightarrow> Inl e
              | Inr reason \<Rightarrow> Inr (st'\<lparr>skipReason := Some reason\<rparr>, anchor))
         | Some wrapper \<Rightarrow> Inr (st', wrapper))"

text \<open>The two tests on the parent of a JSX element.\<close>

definition isReturnStatement :: "node option \<Rightarrow> bool" where
  "isReturnStatement parent = (case parent of Some (ReturnStatement argument) \<Rightarrow> True | _ \<Rightarrow> False)"

definition isRenderCall :: "node option \<Rightarrow> bool" where
  "isRenderCall parent =
     (case parent of
        Some (CallExpression (MemberExpression ob (Identifier property)) arguments) \<Rightarrow> property = ''render''
      | _ \<Rightarrow> False)"

text \<open>
  The two visitors (lines 57 to 68 and 88 to 110) differ in the test on the parent only:
  \<^verbatim>\<open>
  JSXElement: (path) => {
    if (providerWrapped || !path.parentPath.isReturnStatement()) { return; }
    this.wrapJsxInProvider(path);
    providerWrapped = true;
    path.skip();
  }
  \<close>
\<close>

definition hostVisitor ::
  "(node option \<Rightarrow> bool) \<Rightarrow> bool \<Rightarrow> node option \<Rightarrow> traversal_state \<Rightarrow> node \<Rightarrow>
   task_error + traversal_state visit" where
  "hostVisitor isHost skipThrows parent st n =
     (if providerWrapped st \<or> \<not> isHost parent then Inr (Descend st)
      else
        (case wrapJsxInProvider skipThrows st n of
           Inl e \<Rightarrow> Inl e
         | Inr (st', n') \<Rightarrow> Inr (Skip (st'\<lparr>providerWrapped := True\<rparr>) n')))"

definition configureNext_JSXElement ::
  "bool \<Rightarrow> node option \<Rightarrow> traversal_state \<Rightarrow> node \<Rightarrow> task_error + traversal_state visit" where
  "configureNext_JSXElement = hostVisitor isReturnStatement"

definition configureViteOrCra_JSXElement ::
  "bool \<Rightarrow> node option \<Rightarrow> traversal_state \<Rightarrow> node \<Rightarrow> task_error + traversal_state visit" where
  "configureViteOrCra_JSXElement = hostVisitor isRenderCall"

text \<open>
  The body of the program at the start of a traversal, and the tree at its end: the import
  declarations that \<open>insertNamedImport\<close> has put in front of the body stand before the
  statements that the traversal leaves.
\<close>

definition bodyOf :: "node \<Rightarrow> node list" where
  "bodyOf ast = (case ast of Program body \<Rightarrow> body | _ \<Rightarrow> [])"

definition withImports :: "node \<Rightarrow> node list \<Rightarrow> node \<Rightarrow> node" where
  "withImports ast body ast' =
     (case ast' of
        Program body' \<Rightarrow> Program (take (length body - length (bodyOf ast)) body @ body')
      | _ \<Rightarrow> ast')"

text \<open>
  \<open>configureNext\<close> and \<open>configureViteOrCra\<close> (lines 49 to 124) have one shape: read, parse,
  traverse, throw if nothing was found, print and write. \<open>readFromFile\<close> and \<open>writeToFile\<close> of
  \<open>utils\<close> are the reading and writing of the file system. The result is the error, or the
  reason of a skip that was recorded.
\<close>

definition configureHost ::
  "(bool \<Rightarrow> node option \<Rightarrow> traversal_state \<Rightarrow> node \<Rightarrow> task_error + traversal_state visit) \<Rightarrow> task_error \<Rightarrow>
   bool \<Rightarrow> ('t \<Rightarrow> node option) \<Rightarrow> (node \<Rightarrow> 't \<Rightarrow> 't) \<Rightarrow> project_context \<Rightarrow> 't filesystem \<Rightarrow>
   (task_error + string option) \<times> 't filesystem" where
  "configureHost visitor notFound skipThrows parseAst printAst context fs =
     (case readFile fs (abs_path (mainFile context)) of
        None \<Rightarrow> (Inl (ReadError (abs_path (mainFile context))), fs)
      | Some code \<Rightarrow>
          (case parseAst code of
             None \<Rightarrow> (Inl ParseError, fs)
           | Some ast \<Rightarrow>
               (case traverse (visitor skipThrows) None
                       \<lparr>providerWrapped = False, programBody = bodyOf ast, skipReason = None\<rparr> ast of
                  Inl e \<Rightarrow> (Inl e, fs)
                | Inr (st, ast') \<Rightarrow>
                    if \<not> providerWrapped st then (Inl notFound, fs)
                    else (Inr (skipReason st),
                          writeFile fs (abs_path (mainFile context))
                            (printAst (withImports ast (programBody st) ast') code)))))"

definition AddRelayEnvironmentProviderTask_configureNext ::
  "bool \<Rightarrow> ('t \<Rightarrow> node option) \<Rightarrow> (node \<Rightarrow> 't \<Rightarrow> 't) \<Rightarrow> project_context \<Rightarrow> 't filesystem \<Rightarrow>
   (task_error + string option) \<times> 't filesystem" where
  "AddRelayEnvironmentProviderTask_configureNext = configureHost configureNext_JSXElement JsxNotFound"

definition AddRelayEnvironmentProviderTask_configureViteOrCra ::
  "bool \<Rightarrow> ('t \<Rightarrow> node option) \<Rightarrow> (node \<Rightarrow> 't \<Rightarrow> 't) \<Rightarrow> project_context \<Rightarrow> 't filesystem \<Rightarrow>
   (task_error + string option) \<times> 't filesystem" where
  "AddRelayEnvironmentProviderTask_configureViteOrCra =
     configureHost configureViteOrCra_JSXElement RenderJsxNotFound"

text \<open>\<open>run\<close> (lines 30 to 47).\<close>

definition AddRelayEnvironmentProviderTask_run ::
  "bool \<Rightarrow> ('t \<Rightarrow> node option) \<Rightarrow> (node \<Rightarrow> 't \<Rightarrow> 't) \<Rightarrow> project_context \<Rightarrow> 't filesystem \<Rightarrow>
   (task_error + string option) \<times> 't filesystem" where
  "AddRelayEnvironmentProviderTask_run skipThrows parseAst printAst context fs =
     (if args_toolchain context = ''vite'' \<or> args_toolchain context = ''cra''
      then AddRelayEnvironmentProviderTask_configureViteOrCra skipThrows parseAst printAst context fs
      else if args_toolchain context = ''next''
      then AddRelayEnvironmentProviderTask_configureNext skipThrows parseAst printAst context fs
      else (Inl (UnsupportedToolchain (args_toolchain context)), fs))"

section \<open>AddRelayEnvironmentTask\<close>

text \<open>
  The visitor of \<open>configureVite\<close> (lines 62 to 106). It keeps no flag; its state is the body of
  the program. Where the element is wrapped already it returns without \<open>path.skip()\<close>.
\<close>

definition configureVite_JSXElement :: "node option \<Rightarrow> node list \<Rightarrow> node \<Rightarrow> task_error + node list visit" where
  "configureVite_JSXElement parent body n =
     (if \<not> isRenderCall parent then Inr (Descend body)
      else
        (let (body1, envId) = insertNamedImport body ''RelayEnvironment'' ''./RelayEnvironment'';
             (body2, envProviderId) = insertNamedImport body1 ''RelayEnvironmentProvider'' ''react-relay''
         in case wrapJsx envId envProviderId n of
              None \<Rightarrow> Inr (Descend body2)
            | Some wrapper \<Rightarrow> Inr (Skip body2 wrapper)))"

text \<open>
  \<open>addRelayEnvironmentFile\<close> (lines 114 to 135) and \<open>configureVite\<close> (lines 34 to 112).
  The two constants of \<open>consts.ts\<close> and \<open>path.dirname\<close>, \<open>path.basename\<close> of Node.js are
  parameters.
\<close>

definition addRelayEnvironmentFile ::
  "project_settings \<Rightarrow> string \<Rightarrow> 't filesystem \<Rightarrow> 't filesystem option" where
  "addRelayEnvironmentFile settings filepathNoExt fs =
     (let relativeRelayEnvFilepath = filepathNoExt @ (if useTypescript settings then ''.ts'' else ''.js'');
          relayEnvFilepath = path_join (projectRootDirectory settings) relativeRelayEnvFilepath;
          srcFile = (if useTypescript settings then ''./assets/env_ts'' else ''./assets/env'');
          srcFilepath = path_join (ownPackageDirectory settings) srcFile
      in copyFile fs srcFilepath relayEnvFilepath)"

definition AddRelayEnvironmentTask_configureVite ::
  "string \<Rightarrow> string \<Rightarrow> (string \<Rightarrow> string) \<Rightarrow> (string \<Rightarrow> string) \<Rightarrow>
   ('t \<Rightarrow> node option) \<Rightarrow> (node \<Rightarrow> 't \<Rightarrow> 't) \<Rightarrow> project_settings \<Rightarrow> 't filesystem \<Rightarrow>
   (task_error + unit) \<times> 't filesystem" where
  "AddRelayEnvironmentTask_configureVite VITE_RELAY_ENV_FILE_NO_EXT VITE_MAIN_FILE_NO_EXT
       dirname basename parseAst printAst settings fs =
     (case addRelayEnvironmentFile settings VITE_RELAY_ENV_FILE_NO_EXT fs of
        None \<Rightarrow>
          (Inl (CopyError
                  (path_join (ownPackageDirectory settings)
                     (if useTypescript settings then ''./assets/env_ts'' else ''./assets/env''))
                  (path_join (projectRootDirectory settings)
                     (VITE_RELAY_ENV_FILE_NO_EXT @ (if useTypescript settings then ''.ts'' else ''.js'')))),
           fs)
      | Some fs1 \<Rightarrow>
          (let relativeMainFilepath =
                 VITE_MAIN_FILE_NO_EXT @ (if useTypescript settings then ''.tsx'' else ''.jsx'');
               searchDirectory = dirname (path_join (projectRootDirectory settings) relativeMainFilepath);
               mainFilename = basename relativeMainFilepath
           in case existingFile (findFileInDirectory (readdir fs1) searchDirectory mainFilename) of
                None \<Rightarrow> (Inl (FileNotFound relativeMainFilepath), fs1)
              | Some mainFilePath \<Rightarrow>
                  (case readFile fs1 mainFilePath of
                     None \<Rightarrow> (Inl (ReadError mainFilePath), fs1)
                   | Some mainCode \<Rightarrow>
                       (case parseAst mainCode of
                          None \<Rightarrow> (Inl ParseError, fs1)
                        | Some ast \<Rightarrow>
                            (case traverse configureVite_JSXElement None (bodyOf ast) ast of
                               Inl e \<Rightarrow> (Inl e, fs1)
                             | Inr (body, ast') \<Rightarrow>
                                 (Inr (),
                                  writeFile fs1 mainFilePath
                                    (printAst (withImports ast body ast') mainCode)))))))"

section \<open>GenerateArtifactDirectoryTask\<close>

text \<open>
  \<^verbatim>\<open>
  isEnabled(): boolean { return !!this.context.artifactPath; }

  async run(): Promise<void> {
    if (!this.context.artifactPath) { return; }
    this.updateMessage(this.message + " " + h(this.context.artifactPath.rel));
    if (this.context.fs.exists(this.context.artifactPath.abs)) {
      this.skip("Directory exists");
      return;
    }
    this.context.fs.createDirectory(this.context.artifactPath.abs);
  }
  \<close>
  \<open>updateMessage\<close> changes the text shown for the task and nothing else; it is left out.
\<close>

definition GenerateArtifactDirectoryTask_isEnabled :: "project_context \<Rightarrow> bool" where
  "GenerateArtifactDirectoryTask_isEnabled context = (artifactPath context \<noteq> None)"

definition GenerateArtifactDirectoryTask_run ::
  "bool \<Rightarrow> project_context \<Rightarrow> 't filesystem \<Rightarrow> (task_error + string option) \<times> 't filesystem" where
  "GenerateArtifactDirectoryTask_run skipThrows context fs =
     (case artifactPath context of
        None \<Rightarrow> (Inr None, fs)
      | Some artifactDirectory \<Rightarrow>
          if exists fs (abs_path artifactDirectory)
          then (case skip skipThrows ''Directory exists'' of
                  Inl e \<Rightarrow> (Inl e, fs)
                | Inr reason \<Rightarrow> (Inr (Some reason), fs))
          else (Inr None, createDirectory fs (abs_path artifactDirectory)))"

section \<open>Sample inputs\<close>

text \<open>Concrete projects and trees on which the theorems below are instantiated.\<close>

definition artifact_context :: project_context where
  "artifact_context =
     \<lparr>args_toolchain = ''next'',
      mainFile = \<lparr>abs_path = ''/app/pages/_app.jsx'', rel_path = ''./pages/_app.jsx''\<rparr>,
      artifactPath = Some \<lparr>abs_path = ''/app/__generated__'', rel_path = ''./__generated__''\<rparr>\<rparr>"

definition disk_with :: "string list \<Rightarrow> unit filesystem" where
  "disk_with dirs =
     \<lparr>readdir = (\<lambda>d. None), readFile = (\<lambda>f. None), exists = (\<lambda>p. p \<in> set dirs),
      written = [], created = []\<rparr>"

definition app_element :: node where
  "app_element = JSXElement (JSXIdentifier ''App'') [] None []"

definition wrapped_app :: node where
  "wrapped_app =
     JSXElement (JSXIdentifier ''RelayEnvironmentProvider'')
       [JSXAttribute (JSXIdentifier ''environment'') (Some (JSXExpressionContainer (Identifier ''RelayEnvironment'')))]
       (Some (JSXIdentifier ''RelayEnvironmentProvider''))
       [app_element]"









definition aliased_import :: node where
  "aliased_import =
     ImportDeclaration
       [ImportDefaultSpecifier ''relay'', ImportSpecifier ''RelayEnvironmentProvider'' ''Provider'']
       ''react-relay''"

definition vite_settings :: project_settings where
  "vite_settings =
     \<lparr>toolchain = ''vite'', projectRootDirectory = ''/app'', ownPackageDirectory = ''/pkg'',
      srcDirectoryPath = ''./src'', useTypescript = False, artifactDirectoryPath = None\<rparr>"

definition vite_config :: "node option list \<Rightarrow> node list" where
  "vite_config plugins =
     [ImportDeclaration [ImportSpecifier ''defineConfig'' ''defineConfig''] ''vite'',
      ExportDefaultDeclaration
        (CallExpression (Identifier ''defineConfig'')
           [ObjectExpression [ObjectProperty (Identifier ''plugins'') (ArrayExpression plugins)]])]"

definition relay_import :: node where
  "relay_import = ImportDeclaration [ImportDefaultSpecifier ''relay''] ''vite-plugin-relay''"

definition vite_disk :: "node \<Rightarrow> node filesystem" where
  "vite_disk ast =
     \<lparr>readdir = (\<lambda>d. if d = ''/app'' then Some [''package.json'', ''vite.config.js''] else None),
      readFile = (\<lambda>f. if f = ''/app/vite.config.js'' then Some ast else None),
      exists = (\<lambda>p. False), written = [], created = []\<rparr>"

definition project_disk :: "string \<Rightarrow> string list option" where
  "project_disk d = (if d = ''/work/app'' then Some [''src'', ''package.json''] else Some [])"





definition sample_dirname :: "string \<Rightarrow> string" where
  "sample_dirname p = join ''/'' (butlast (split CHR ''/'' p))"

definition sample_basename :: "string \<Rightarrow> string" where
  "sample_basename p = last (split CHR ''/'' p)"

definition mount_main :: node where
  "mount_main =
     Program
       [Other ''ExpressionStatement''
          [CallExpression (Identifier ''mount'') [JSXElement (JSXIdentifier ''App'') [] None []]]]"

definition main_disk :: "node filesystem" where
  "main_disk =
     \<lparr>readdir = (\<lambda>d. if d = ''/app/src'' then Some [''main.jsx''] else None),
      readFile = (\<lambda>f. if f = ''/app/src/main.jsx'' then Some mount_main
                      else if f = ''/pkg/assets/env'' then Some (Program []) else None),
      exists = (\<lambda>p. False), written = [], created = []\<rparr>"

chapter \<open>Properties\<close>

section \<open>The path helpers\<close>

lemma split_not_Nil: "split sep s \<noteq> []"
  by (induction s) (auto split: list.splits)

lemma join_Cons: "ss \<noteq> [] \<Longrightarrow> join d (s # ss) = s @ d @ join d ss"
  by (cases ss) auto

lemma join_Cons_head: "join d ((c # seg) # segs) = c # join d (seg # segs)"
  by (cases segs) auto

lemma join_split: "join ''/'' (split sep s) = map (\<lambda>c. if c = sep then CHR ''/'' else c) s"
proof (induction s)
  case Nil
  show ?case by simp
next
  case (Cons c cs)
  show ?case
  proof (cases "c = sep")
    case True
    then show ?thesis using Cons.IH by (simp add: join_Cons split_not_Nil)
  next
    case False
    obtain seg segs where sp: "split sep cs = seg # segs"
      using split_not_Nil [of sep cs] by (cases "split sep cs") auto
    show ?thesis using False Cons.IH sp by (simp add: join_Cons_head)
  qed
qed

lemma join_split_fixed:
  "join ''/'' (split (path_sep plat) (join ''/'' (split (path_sep plat) s))) =
   join ''/'' (split (path_sep plat) s)"
  unfolding join_split by simp

lemma join_split_dot_slash:
  "join ''/'' (split (path_sep plat) (''./'' @ s)) = ''./'' @ join ''/'' (split (path_sep plat) s)"
  unfolding join_split by (cases plat) (simp_all add: path_sep_def)

text \<open>
  C10. \<open>normalizePath\<close> is idempotent on every input string, on both platforms, and each of
  its outputs starts with \<open>..\<close> or with \<open>./\<close>.
\<close>

theorem normalizePath_idempotent:
  "normalizePath plat (normalizePath plat s) = normalizePath plat s \<and>
   (startsWith (normalizePath plat s) ''..'' \<or> startsWith (normalizePath plat s) ''./'')"
proof -
  let ?u = "join ''/'' (split (path_sep plat) s)"
  show ?thesis
  proof (cases "\<not> startsWith ?u ''..'' \<and> \<not> startsWith ?u ''./''")
    case True
    then have n: "normalizePath plat s = ''./'' @ ?u"
      by (simp add: normalizePath_def)
    have st: "startsWith (''./'' @ ?u) ''./''"
      by (simp add: startsWith_def)
    have "normalizePath plat (''./'' @ ?u) = ''./'' @ ?u"
      unfolding normalizePath_def join_split_dot_slash join_split_fixed using st by simp
    then show ?thesis using n st by simp
  next
    case False
    then have n: "normalizePath plat s = ?u"
      by (auto simp: normalizePath_def)
    have "normalizePath plat ?u = ?u"
      unfolding normalizePath_def join_split_fixed using False by auto
    then show ?thesis using n False by auto
  qed
qed

theorem normalizePath_idempotent_witness:
  "normalizePath Win32 (normalizePath Win32 [CHR ''s'', CHR ''r'', CHR ''c'', CHR 0x5C, CHR ''a'']) = ''./src/a'' \<and>
   startsWith (normalizePath Win32 [CHR ''s'', CHR ''r'', CHR ''c'', CHR 0x5C, CHR ''a'']) ''./''"
  using normalizePath_idempotent [of Win32 "[CHR ''s'', CHR ''r'', CHR ''c'', CHR 0x5C, CHR ''a'']"]
  by (simp add: normalizePath_def path_sep_def startsWith_def)

section \<open>GenerateArtifactDirectoryTask\<close>

text \<open>
  C8. \<open>isEnabled\<close> holds exactly when the project context has an artifact path. When the task
  runs with an artifact path whose absolute form exists already, its outcome is Skipped and the
  file system is left as it was, so \<open>createDirectory\<close> is not called; when that path does not
  exist, the run is one call of \<open>createDirectory\<close> with the absolute form of the artifact path.
  Both hold whether \<open>skip\<close> throws or records.
\<close>

theorem GenerateArtifactDirectoryTask_behaviour:
  "(GenerateArtifactDirectoryTask_isEnabled context \<longleftrightarrow> (\<exists>p. artifactPath context = Some p)) \<and>
   (artifactPath context = Some p \<longrightarrow> exists fs (abs_path p) \<longrightarrow>
      outcome (fst (GenerateArtifactDirectoryTask_run skipThrows context fs)) = Skipped ''Directory exists'' \<and>
      snd (GenerateArtifactDirectoryTask_run skipThrows context fs) = fs) \<and>
   (artifactPath context = Some p \<longrightarrow> \<not> exists fs (abs_path p) \<longrightarrow>
      GenerateArtifactDirectoryTask_run skipThrows context fs = (Inr None, createDirectory fs (abs_path p)) \<and>
      created (snd (GenerateArtifactDirectoryTask_run skipThrows context fs)) = created fs @ [abs_path p])"
  by (auto simp: GenerateArtifactDirectoryTask_isEnabled_def GenerateArtifactDirectoryTask_run_def
      skip_def outcome_def createDirectory_def)

theorem GenerateArtifactDirectoryTask_behaviour_witness:
  "GenerateArtifactDirectoryTask_isEnabled artifact_context \<and>
   outcome (fst (GenerateArtifactDirectoryTask_run True artifact_context (disk_with [''/app/__generated__''])))
     = Skipped ''Directory exists'' \<and>
   created (snd (GenerateArtifactDirectoryTask_run True artifact_context (disk_with [''/app/__generated__'']))) = [] \<and>
   created (snd (GenerateArtifactDirectoryTask_run False artifact_context (disk_with []))) = [''/app/__generated__'']"
  using GenerateArtifactDirectoryTask_behaviour
          [of artifact_context "\<lparr>abs_path = ''/app/__generated__'', rel_path = ''./__generated__''\<rparr>"
              "disk_with [''/app/__generated__'']" True]
        GenerateArtifactDirectoryTask_behaviour
          [of artifact_context "\<lparr>abs_path = ''/app/__generated__'', rel_path = ''./__generated__''\<rparr>"
              "disk_with []" False]
  by (simp add: artifact_context_def disk_with_def GenerateArtifactDirectoryTask_run_def
      GenerateArtifactDirectoryTask_isEnabled_def skip_def outcome_def createDirectory_def)

section \<open>Wrapping the JSX anchor\<close>

text \<open>
  C5. Let \<open>envId\<close> and \<open>envProviderId\<close> be the local names that the two calls of
  \<open>insertNamedImport\<close> have ensured. If the name of the opening element of the anchor is the JSX
  identifier \<open>envProviderId\<close>, the wrap step skips: \<open>wrapJsxInProvider\<close> signals the skip (by the
  error of \<open>skip\<close>, or by the recorded reason) and leaves the anchor as the node at its position.
  Otherwise the anchor is replaced by a JSX element whose opening and closing names are
  \<open>envProviderId\<close>, whose only attribute is \<open>environment\<close> with an expression container around
  the identifier \<open>envId\<close> as value, and whose only child is the anchor.
\<close>

theorem wrapJsx_skips_or_wraps:
  "(openingElementName anchor = Some (JSXIdentifier envProviderId) \<longrightarrow>
      wrapJsx envId envProviderId anchor = None \<and>
      (\<forall>st. insertNamedImport (programBody st) RELAY_ENV [] = (body1, envId) \<longrightarrow>
            insertNamedImport body1 RELAY_ENV_PROVIDER REACT_RELAY_PACKAGE = (body2, envProviderId) \<longrightarrow>
            (case wrapJsxInProvider skipThrows st anchor of
               Inl e \<Rightarrow> skipThrows \<and> e = TaskSkippedError ''JSX already wrapped with RelayEnvironmentProvider''
             | Inr (st', n) \<Rightarrow> \<not> skipThrows \<and> n = anchor \<and> skipReason st' \<noteq> None))) \<and>
   (openingElementName anchor \<noteq> Some (JSXIdentifier envProviderId) \<longrightarrow>
      wrapJsx envId envProviderId anchor =
        Some (JSXElement (JSXIdentifier envProviderId)
                [JSXAttribute (JSXIdentifier ''environment'') (Some (JSXExpressionContainer (Identifier envId)))]
                (Some (JSXIdentifier envProviderId))
                [anchor]) \<and>
      (\<forall>st. insertNamedImport (programBody st) RELAY_ENV [] = (body1, envId) \<longrightarrow>
            insertNamedImport body1 RELAY_ENV_PROVIDER REACT_RELAY_PACKAGE = (body2, envProviderId) \<longrightarrow>
            wrapJsxInProvider skipThrows st anchor =
              Inr (st\<lparr>programBody := body2\<rparr>,
                   JSXElement (JSXIdentifier envProviderId)
                     [JSXAttribute (JSXIdentifier ''environment'') (Some (JSXExpressionContainer (Identifier envId)))]
                     (Some (JSXIdentifier envProviderId))
                     [anchor])))"
  by (auto simp: wrapJsx_def wrapJsxInProvider_def skip_def Let_def)

theorem wrapJsx_skips_or_wraps_witness:
  "wrapJsx ''RelayEnvironment'' ''RelayEnvironmentProvider'' app_element = Some wrapped_app \<and>
   wrapJsx ''RelayEnvironment'' ''RelayEnvironmentProvider'' wrapped_app = None"
  using wrapJsx_skips_or_wraps [of app_element "''RelayEnvironmentProvider''" "''RelayEnvironment''"]
        wrapJsx_skips_or_wraps [of wrapped_app "''RelayEnvironmentProvider''" "''RelayEnvironment''"]
  by (simp add: app_element_def wrapped_app_def openingElementName_def wrapJsx_def)

section \<open>Positions in a tree\<close>






section \<open>The property upsert of configureNext\<close>

lemma extract_first:
  "\<not> list_ex P ys \<Longrightarrow> P y \<Longrightarrow> List.extract P (ys @ y # zs) = Some (ys, y, zs)"
  by (simp add: extract_Some_iff list_ex_iff)

lemma extract_none: "\<not> list_ex P xs \<Longrightarrow> List.extract P xs = None"
  by (simp add: extract_None_iff list_ex_iff)

lemma list_ex_isPropertyNamed:
  "list_ex (isPropertyNamed name) ps \<longleftrightarrow> (\<exists>v. ObjectProperty (Identifier name) v \<in> set ps)"
proof
  assume "list_ex (isPropertyNamed name) ps"
  then obtain p where p: "p \<in> set ps" "isPropertyNamed name p" by (auto simp: list_ex_iff)
  from p(2) obtain v where "p = ObjectProperty (Identifier name) v"
    by (auto simp: isPropertyNamed_def split: node.splits)
  with p(1) show "\<exists>v. ObjectProperty (Identifier name) v \<in> set ps" by blast
next
  assume "\<exists>v. ObjectProperty (Identifier name) v \<in> set ps"
  then obtain v where "ObjectProperty (Identifier name) v \<in> set ps" by blast
  moreover have "isPropertyNamed name (ObjectProperty (Identifier name) v)"
    by (simp add: isPropertyNamed_def)
  ultimately show "list_ex (isPropertyNamed name) ps" by (auto simp: list_ex_iff)
qed




section \<open>The exported object of next.config.js\<close>






section \<open>Reusing an import\<close>

lemma importedAs_Some: "importedAs X specifiers = Some Y \<Longrightarrow> ImportSpecifier X Y \<in> set specifiers"
  by (induction X specifiers rule: importedAs.induct) (auto split: if_splits)

lemma importedAs_None: "importedAs X specifiers = None \<Longrightarrow> ImportSpecifier X Y \<notin> set specifiers"
  by (induction X specifiers rule: importedAs.induct) (auto split: if_splits)

lemma existingImport_Some:
  "existingImport X M body = Some Y \<Longrightarrow>
   \<exists>specifiers. ImportDeclaration specifiers M \<in> set body \<and> ImportSpecifier X Y \<in> set specifiers"
  by (induction X M body rule: existingImport.induct)
     (auto split: if_splits option.splits dest: importedAs_Some)

lemma existingImport_None:
  "existingImport X M body = None \<Longrightarrow> ImportDeclaration specifiers M \<in> set body \<Longrightarrow>
   ImportSpecifier X Y \<notin> set specifiers"
  by (induction X M body rule: existingImport.induct)
     (auto split: if_splits option.splits dest: importedAs_None)

text \<open>
  C4. If the body of a module has an import declaration from module \<open>M\<close> with a specifier that
  imports \<open>X\<close> under the local name \<open>Y\<close>, then \<open>insertNamedImport\<close> for \<open>X\<close> and \<open>M\<close> leaves
  the body as it is and returns a local name under which the body imports \<open>X\<close> from \<open>M\<close>; it
  returns \<open>Y\<close> when \<open>Y\<close> is the only such name. In \<open>configureVite\<close>, if an import declaration of
  the body (from the plugin module or any other) has a default specifier with the local name
  \<open>relay\<close>, the visitor of \<open>Program\<close> leaves the body as it is: no import is put in front.
\<close>

theorem import_reuse:
  "(ImportDeclaration specifiers M \<in> set body \<longrightarrow> ImportSpecifier X Y \<in> set specifiers \<longrightarrow>
      fst (insertNamedImport body X M) = body \<and>
      (\<exists>specifiers'. ImportDeclaration specifiers' M \<in> set body \<and>
         ImportSpecifier X (snd (insertNamedImport body X M)) \<in> set specifiers') \<and>
      ((\<forall>specifiers' Y'. ImportDeclaration specifiers' M \<in> set body \<longrightarrow>
           ImportSpecifier X Y' \<in> set specifiers' \<longrightarrow> Y' = Y) \<longrightarrow>
         insertNamedImport body X M = (body, Y))) \<and>
   (ImportDeclaration specifiers source \<in> set body \<longrightarrow>
    ImportDefaultSpecifier relayImportName \<in> set specifiers \<longrightarrow>
      configureVite_Program body = body)"
proof -
  have a: "\<exists>Y'. existingImport X M body = Some Y'"
    if "ImportDeclaration specifiers M \<in> set body" "ImportSpecifier X Y \<in> set specifiers"
    using existingImport_None [of X M body specifiers Y] that
    by (cases "existingImport X M body") auto
  have b: "hasRelayImport body"
    if "ImportDeclaration specifiers source \<in> set body"
       "ImportDefaultSpecifier relayImportName \<in> set specifiers"
    unfolding hasRelayImport_def list_ex_iff
    using that
    by (intro bexI [of _ "ImportDeclaration specifiers source"])
       (auto intro!: bexI [of _ "ImportDefaultSpecifier relayImportName"])
  have c: "fst (insertNamedImport body X M) = body \<and>
      (\<exists>specifiers'. ImportDeclaration specifiers' M \<in> set body \<and>
         ImportSpecifier X (snd (insertNamedImport body X M)) \<in> set specifiers') \<and>
      ((\<forall>specifiers' Y'. ImportDeclaration specifiers' M \<in> set body \<longrightarrow>
           ImportSpecifier X Y' \<in> set specifiers' \<longrightarrow> Y' = Y) \<longrightarrow>
         insertNamedImport body X M = (body, Y))"
    if h: "ImportDeclaration specifiers M \<in> set body" "ImportSpecifier X Y \<in> set specifiers"
  proof -
    obtain Y' where e: "existingImport X M body = Some Y'" using a [OF h] by blast
    have i: "insertNamedImport body X M = (body, Y')" by (simp add: insertNamedImport_def e)
    obtain specifiers' where s: "ImportDeclaration specifiers' M \<in> set body"
        "ImportSpecifier X Y' \<in> set specifiers'"
      using existingImport_Some [OF e] by blast
    show ?thesis unfolding i using s by auto
  qed
  have d: "configureVite_Program body = body"
    if "ImportDeclaration specifiers source \<in> set body"
       "ImportDefaultSpecifier relayImportName \<in> set specifiers"
    using b [OF that] by (simp add: configureVite_Program_def)
  show ?thesis using c d by blast
qed

theorem import_reuse_witness:
  "insertNamedImport [aliased_import] ''RelayEnvironmentProvider'' ''react-relay'' = ([aliased_import], ''Provider'') \<and>
   configureVite_Program [aliased_import] = [aliased_import]"
  using import_reuse
          [of "[ImportDefaultSpecifier ''relay'', ImportSpecifier ''RelayEnvironmentProvider'' ''Provider'']"
              "''react-relay''" "[aliased_import]" "''RelayEnvironmentProvider''" "''Provider''" "''react-relay''"]
  by (simp add: aliased_import_def relayImportName_def)

section \<open>The upward search\<close>

lemma split_append_sep: "split sep (s @ sep # t) = split sep s @ split sep t"
proof (induction s)
  case Nil
  show ?case by simp
next
  case (Cons c s)
  obtain seg segs where sp: "split sep s = seg # segs"
    using split_not_Nil [of sep s] by (cases "split sep s") auto
  show ?case using Cons.IH sp by simp
qed

lemma split_no_sep: "sep \<notin> set s \<Longrightarrow> split sep s = [s]"
  by (induction s) auto

lemma split_segments: "seg \<in> set (split sep s) \<Longrightarrow> sep \<notin> set seg"
proof (induction s arbitrary: seg)
  case Nil
  then show ?case by simp
next
  case (Cons c s)
  obtain x xs where sp: "split sep s = x # xs"
    using split_not_Nil [of sep s] by (cases "split sep s") auto
  show ?case
  proof (cases "c = sep")
    case True
    with Cons show ?thesis by auto
  next
    case False
    with Cons.prems sp have "seg = c # x \<or> seg \<in> set xs" by simp
    then show ?thesis using Cons.IH [of x] Cons.IH [of seg] sp False by auto
  qed
qed

lemma split_join:
  "segs \<noteq> [] \<Longrightarrow> \<forall>seg\<in>set segs. sep \<notin> set seg \<Longrightarrow> split sep (join [sep] segs) = segs"
proof (induction segs)
  case Nil
  then show ?case by simp
next
  case (Cons x xs)
  show ?case
  proof (cases "xs = []")
    case True
    with Cons.prems show ?thesis by (simp add: split_no_sep)
  next
    case False
    have "split sep (x @ sep # join [sep] xs) = split sep x @ split sep (join [sep] xs)"
      by (rule split_append_sep)
    then show ?thesis using Cons False by (simp add: join_Cons split_no_sep)
  qed
qed

lemma normalizeString_append:
  "normalizeString a res (xs @ ys) = normalizeString a (normalizeString a res xs) ys"
  by (induction xs arbitrary: res) auto

lemma clean_butlast: "clean res \<Longrightarrow> clean (butlast res)"
  by (auto simp: clean_def dest: in_set_butlastD)

lemma normalizeString_clean:
  "clean res \<Longrightarrow> \<forall>seg\<in>set segs. CHR ''/'' \<notin> set seg \<Longrightarrow> clean (normalizeString False res segs)"
proof (induction segs arbitrary: res)
  case Nil
  then show ?case by simp
next
  case (Cons seg segs)
  have cl: "clean (res @ [seg])" if "seg \<noteq> []" "seg \<noteq> ''.''" "seg \<noteq> ''..''"
    using that Cons.prems by (auto simp: clean_def)
  show ?case using Cons cl clean_butlast [of res] by auto
qed

lemma normalizeString_id: "clean segs \<Longrightarrow> normalizeString a res segs = res @ segs"
  by (induction segs arbitrary: res) (auto simp: clean_def)

lemma clean_segments: "clean (segments d)"
  unfolding segments_def
  by (rule normalizeString_clean) (auto simp: clean_def dest: split_segments)

lemma join_clean_nonempty:
  assumes "clean segs" "segs \<noteq> []"
  shows "join ''/'' segs \<noteq> []"
proof -
  obtain a rest where segs: "segs = a # rest" using assms(2) by (cases segs) auto
  have "a \<noteq> []" using assms(1) segs by (simp add: clean_def)
  then show ?thesis unfolding segs by (cases rest) simp_all
qed

lemma parentDirectory_absolute:
  assumes "isAbsolute d"
  shows "parentDirectory d = absolute_of (butlast (segments d))"
proof -
  from assms obtain cs where d: "d = CHR ''/'' # cs" by (cases d) (auto simp: isAbsolute_def)
  have sp: "split CHR ''/'' (d @ ''/..'') = split CHR ''/'' d @ [''..'']"
    using split_append_sep [of "CHR ''/''" d "''..''"] by (simp add: split_no_sep)
  have cl: "clean (segments d)" by (rule clean_segments)
  have nl: "segments d \<noteq> [] \<Longrightarrow> last (segments d) \<noteq> ''..''"
    using cl last_in_set [of "segments d"] by (auto simp: clean_def)
  have ns: "normalizeString False [] (split CHR ''/'' (d @ ''/..'')) = butlast (segments d)"
  proof (cases "segments d = []")
    case True
    then show ?thesis unfolding sp normalizeString_append by (simp add: segments_def)
  next
    case False
    then show ?thesis unfolding sp normalizeString_append using nl by (simp add: segments_def)
  qed
  have hl: "hd (d @ ''/..'') = CHR ''/''" "last (d @ ''/..'') \<noteq> CHR ''/''" "d @ ''/..'' \<noteq> []"
    by (simp_all add: d)
  have "path_normalize (d @ ''/..'') =
        (let p = join ''/'' (butlast (segments d)) in if p = [] then ''/'' else ''/'' @ p)"
    unfolding path_normalize_def Let_def using hl by (simp add: ns)
  then have "path_normalize (d @ ''/..'') = absolute_of (butlast (segments d))"
    using join_clean_nonempty [OF clean_butlast [OF cl]]
    by (auto simp: absolute_of_def Let_def)
  then show ?thesis using d by (simp add: parentDirectory_def path_join_def)
qed

lemma segments_absolute_of: "clean segs \<Longrightarrow> segments (absolute_of segs) = segs"
proof (cases "segs = []")
  case True
  then show ?thesis by (simp add: absolute_of_def segments_def)
next
  case False
  assume cl: "clean segs"
  have "split CHR ''/'' (''/'' @ join ''/'' segs) = [] # segs"
    using split_join [of segs "CHR ''/''"] cl False by (simp add: clean_def)
  then show ?thesis using False cl by (simp add: absolute_of_def segments_def normalizeString_id)
qed

lemma isAbsolute_absolute_of: "isAbsolute (absolute_of segs)"
  by (simp add: absolute_of_def isAbsolute_def)

lemma path_normalize_nonempty: "path_normalize p \<noteq> []"
  by (simp add: path_normalize_def Let_def)

lemma path_join_nonempty: "path_join a b \<noteq> []"
  by (simp add: path_join_def path_normalize_nonempty)

lemma findFileInDirectory_contains:
  "findFileInDirectory listing d f =
     (if directoryContains listing d f then Some (path_join d f) else None)"
  by (simp add: findFileInDirectory_def directoryContains_def split: option.splits)

lemma truthy_find: "truthy (findFileInDirectory listing d f) = directoryContains listing d f"
  by (simp add: findFileInDirectory_contains truthy_def path_join_nonempty)

lemma findFileInDirectory_found:
  "directoryContains listing d f \<Longrightarrow> findFileInDirectory listing d f = Some (path_join d f)"
  by (simp add: findFileInDirectory_contains)

lemma traverseUpToFindFile_step:
  "d \<noteq> [] \<Longrightarrow> traverseUpToFindFile listing f d =
     (if directoryContains listing d f then Some (Some (path_join d f))
      else if d = parentDirectory d then Some None
      else traverseUpToFindFile listing f (parentDirectory d))"
  by (subst traverseUpToFindFile.simps)
     (simp add: truthy_find findFileInDirectory_found Let_def parentDirectory_def)

lemma upward_result_here:
  "directoryContains listing d f \<Longrightarrow> upward_result listing f d (Some (path_join d f))"
  unfolding upward_result_def by (auto intro: exI [of _ 0])

lemma funpow_fixed: "g x = x \<Longrightarrow> (g ^^ k) x = x"
  by (induction k) auto

lemma upward_result_root:
  "\<not> directoryContains listing d f \<Longrightarrow> d = parentDirectory d \<Longrightarrow> upward_result listing f d None"
  unfolding upward_result_def using funpow_fixed [of parentDirectory d] by auto

lemma upward_result_up:
  assumes "\<not> directoryContains listing d f" and "upward_result listing f (parentDirectory d) r"
  shows "upward_result listing f d r"
proof (cases r)
  case None
  have "\<not> directoryContains listing ((parentDirectory ^^ k) d) f" for k
  proof (cases k)
    case 0
    then show ?thesis using assms(1) by simp
  next
    case (Suc i)
    then show ?thesis using assms(2) None by (simp add: upward_result_def funpow_swap1)
  qed
  then show ?thesis using None by (simp add: upward_result_def)
next
  case (Some p)
  then obtain k where k: "directoryContains listing ((parentDirectory ^^ k) (parentDirectory d)) f"
      "p = path_join ((parentDirectory ^^ k) (parentDirectory d)) f"
      "\<forall>j<k. \<not> directoryContains listing ((parentDirectory ^^ j) (parentDirectory d)) f"
    using assms(2) by (auto simp: upward_result_def)
  have "\<not> directoryContains listing ((parentDirectory ^^ j) d) f" if "j < Suc k" for j
  proof (cases j)
    case 0
    then show ?thesis using assms(1) by simp
  next
    case (Suc i)
    then show ?thesis using k(3) that by (simp add: funpow_swap1)
  qed
  then show ?thesis using k(1,2) Some unfolding upward_result_def
    by (auto simp: funpow_swap1 intro!: exI [of _ "Suc k"])
qed

lemma height_parent:
  assumes "isAbsolute d" "d \<noteq> parentDirectory d"
  shows "height (parentDirectory d) < height d"
proof -
  have p: "parentDirectory d = absolute_of (butlast (segments d))"
    using assms(1) by (rule parentDirectory_absolute)
  have s: "segments (parentDirectory d) = butlast (segments d)"
    unfolding p by (rule segments_absolute_of) (rule clean_butlast [OF clean_segments])
  show ?thesis
  proof (cases "segments d = []")
    case True
    then have "parentDirectory d = ''/''" using p by (simp add: absolute_of_def)
    then show ?thesis using assms(2) True s by (auto simp: height_def)
  next
    case False
    have "segments ''/'' = []" by (simp add: segments_def)
    then show ?thesis using False s by (auto simp: height_def)
  qed
qed

text \<open>
  C9, as amended. From every absolute starting directory \<open>traverseUpToFindFile\<close> returns: the
  current directory goes up by joining with \<open>..\<close> until a directory lists the file or the join
  gives the same directory, the root. The result is the path of the file inside the first
  directory on the way up that lists it (\<open>path.join\<close> of that directory and the file name, not
  the directory), or \<open>null\<close> when no directory on the way up lists it.
\<close>

theorem traverseUpToFindFile_absolute:
  "isAbsolute d \<Longrightarrow>
   \<exists>r. traverseUpToFindFile listing f d = Some r \<and> upward_result listing f d r"
proof (induction "height d" arbitrary: d rule: less_induct)
  case less
  have ne: "d \<noteq> []" using less.prems by (simp add: isAbsolute_def)
  show ?case
  proof (cases "directoryContains listing d f")
    case True
    then show ?thesis using traverseUpToFindFile_step [OF ne, of listing f] upward_result_here by simp
  next
    case notHere: False
    show ?thesis
    proof (cases "d = parentDirectory d")
      case True
      then show ?thesis
        using traverseUpToFindFile_step [OF ne, of listing f] notHere upward_result_root [OF notHere]
        by auto
    next
      case False
      have abs: "isAbsolute (parentDirectory d)"
        using parentDirectory_absolute [OF less.prems] isAbsolute_absolute_of by simp
      obtain r where r: "traverseUpToFindFile listing f (parentDirectory d) = Some r"
          "upward_result listing f (parentDirectory d) r"
        using less.hyps [OF height_parent [OF less.prems False] abs] by blast
      show ?thesis
        using traverseUpToFindFile_step [OF ne, of listing f] notHere False r
          upward_result_up [OF notHere r(2)] by auto
    qed
  qed
qed

lemma normalizeString_dotdots:
  "normalizeString True (dotdots m) (dotdots n) = dotdots (m + n)"
proof (induction n arbitrary: m)
  case 0
  show ?case by (simp add: dotdots_def)
next
  case (Suc n)
  have "dotdots m @ [''..''] = dotdots (Suc m)"
    by (simp add: dotdots_def replicate_append_same)
  then show ?case using Suc [of "Suc m"] by (cases m) (auto simp: dotdots_def)
qed

lemma parentDirectory_dotdots:
  "parentDirectory (join ''/'' (dotdots (Suc n))) = join ''/'' (dotdots (Suc (Suc n)))"
proof -
  let ?d = "join ''/'' (dotdots (Suc n))"
  have seg: "\<forall>seg\<in>set (dotdots k). CHR ''/'' \<notin> set seg" for k
    by (simp add: dotdots_def)
  have sp0: "split CHR ''/'' ?d = dotdots (Suc n)"
    using split_join [of "dotdots (Suc n)" "CHR ''/''"] seg [of "Suc n"] by (simp add: dotdots_def)
  have sp: "split CHR ''/'' (?d @ ''/..'') = dotdots (Suc (Suc n))"
    using split_append_sep [of "CHR ''/''" ?d "''..''"] sp0
    by (simp add: split_no_sep dotdots_def replicate_append_same)
  have ns: "normalizeString True [] (split CHR ''/'' (?d @ ''/..'')) = dotdots (Suc (Suc n))"
    unfolding sp using normalizeString_dotdots [of 0 "Suc (Suc n)"] by (simp add: dotdots_def)
  have hd0: "?d = CHR ''.'' # CHR ''.'' # (if n = 0 then [] else ''/'' @ join ''/'' (dotdots n))"
    by (cases n) (simp_all add: dotdots_def)
  have hl: "hd (?d @ ''/..'') \<noteq> CHR ''/''" "last (?d @ ''/..'') \<noteq> CHR ''/''" "?d \<noteq> []"
    by (simp_all add: hd0)
  have jn: "join ''/'' (dotdots (Suc (Suc n))) \<noteq> []"
    by (simp add: dotdots_def)
  have "path_normalize (?d @ ''/..'') = join ''/'' (dotdots (Suc (Suc n)))"
    unfolding path_normalize_def Let_def using hl jn by (simp add: ns)
  then show ?thesis using hl(3) by (simp add: parentDirectory_def path_join_def)
qed

lemma length_join_dotdots: "length (join ''/'' (dotdots (Suc n))) = 3 * n + 2"
  by (induction n) (simp_all add: dotdots_def)

lemma dotdots_next_differs: "join ''/'' (dotdots (Suc n)) \<noteq> join ''/'' (dotdots (Suc (Suc n)))"
proof
  assume "join ''/'' (dotdots (Suc n)) = join ''/'' (dotdots (Suc (Suc n)))"
  then have "length (join ''/'' (dotdots (Suc n))) = length (join ''/'' (dotdots (Suc (Suc n))))"
    by (rule arg_cong)
  then show False unfolding length_join_dotdots by simp
qed

lemma directoryContains_empty_disk: "\<not> directoryContains empty_disk d f"
  by (simp add: directoryContains_def empty_disk_def)

lemma traverseUpToFindFile_returns_not_dotdots:
  assumes "traverseUpToFindFile listing f d = Some r"
  shows "\<not> ascends_forever listing d"
proof (rule traverseUpToFindFile.raw_induct
    [where P = "\<lambda>listing f d r. \<not> ascends_forever listing d", OF _ assms], goal_cases)
  case (1 loop listing filename currentDirectory r)
  show ?case
  proof
    assume "ascends_forever listing currentDirectory"
    then obtain n where e: "listing = empty_disk" and c: "currentDirectory = join ''/'' (dotdots (Suc n))"
      by (auto simp: ascends_forever_def)
    have ne: "currentDirectory \<noteq> []"
      using length_join_dotdots [of n] unfolding c by auto
    have nf: "\<not> truthy (findFileInDirectory listing currentDirectory filename)"
      unfolding e truthy_find by (rule directoryContains_empty_disk)
    have nx: "path_join currentDirectory ''..'' = join ''/'' (dotdots (Suc (Suc n)))"
      unfolding c using parentDirectory_dotdots [of n] by (simp add: parentDirectory_def)
    have "loop listing filename (join ''/'' (dotdots (Suc (Suc n)))) = Some r"
      using 1(2) ne nf nx dotdots_next_differs [of n] c by (simp add: Let_def)
    then have "\<not> ascends_forever listing (join ''/'' (dotdots (Suc (Suc n))))"
      by (rule 1(1))
    then show False using e by (auto simp: ascends_forever_def)
  qed
qed

lemma traverseUpToFindFile_dotdot_diverges:
  "traverseUpToFindFile empty_disk f (join ''/'' (dotdots (Suc n))) = None"
proof (cases "traverseUpToFindFile empty_disk f (join ''/'' (dotdots (Suc n)))")
  case None
  then show ?thesis .
next
  case (Some r)
  then show ?thesis
    using traverseUpToFindFile_returns_not_dotdots [OF Some] by (auto simp: ascends_forever_def)
qed

lemma parentDirectory_dot: "parentDirectory ''.'' = ''..''"
  by (simp add: parentDirectory_def path_join_def path_normalize_def)

lemma parent_of_src: "parentDirectory ''/work/app/src'' = ''/work/app''"
  by (simp add: parentDirectory_def path_join_def path_normalize_def)

lemma package_in_app: "path_join ''/work/app'' ''package.json'' = ''/work/app/package.json''"
  by (simp add: path_join_def path_normalize_def)

lemma project_search:
  "traverseUpToFindFile project_disk ''package.json'' ''/work/app/src'' = Some (Some ''/work/app/package.json'')"
  by (simp add: traverseUpToFindFile_step parent_of_src package_in_app directoryContains_def project_disk_def)

theorem traverseUpToFindFile_absolute_witness:
  "isAbsolute ''/work/app/src'' \<and>
   traverseUpToFindFile project_disk ''package.json'' ''/work/app/src'' = Some (Some ''/work/app/package.json'') \<and>
   upward_result project_disk ''package.json'' ''/work/app/src'' (Some ''/work/app/package.json'')"
proof -
  have a: "isAbsolute ''/work/app/src''" by (simp add: isAbsolute_def)
  show ?thesis
    using traverseUpToFindFile_absolute [OF a, of project_disk "''package.json''"] a project_search by auto
qed

text \<open>
  C9 as stated fails twice. On a relative starting directory the search need not end: from \<open>.\<close>
  the current directory becomes \<open>..\<close>, \<open>../..\<close>, \<open>../../..\<close> and so on, the join never gives
  the same string twice, and on a disk without the file the function does not return. And what
  the search returns from \<open>/work/app/src\<close>, when \<open>/work/app\<close> lists the file, is the path of the
  file, not the directory \<open>/work/app\<close>.
\<close>

theorem traverseUpToFindFile_relative_diverges:
  "traverseUpToFindFile empty_disk ''package.json'' ''.'' = None \<and>
   traverseUpToFindFile project_disk ''package.json'' ''/work/app/src'' = Some (Some ''/work/app/package.json'') \<and>
   ''/work/app/package.json'' \<noteq> ''/work/app''"
proof -
  have "traverseUpToFindFile empty_disk ''package.json'' ''.'' =
        traverseUpToFindFile empty_disk ''package.json'' ''..''"
    by (subst traverseUpToFindFile_step) (simp_all add: directoryContains_empty_disk parentDirectory_dot)
  then have "traverseUpToFindFile empty_disk ''package.json'' ''.'' = None"
    using traverseUpToFindFile_dotdot_diverges [of "''package.json''" 0]
    by (simp add: dotdots_def)
  then show ?thesis using project_search by simp
qed

section \<open>configureVite twice\<close>

lemma isPropertyNamed_key:
  "isPropertyNamed name (ObjectProperty key v) \<Longrightarrow> isPropertyNamed name (ObjectProperty key v')"
  by (cases key) (simp_all add: isPropertyNamed_def)

lemma relay_listed: "list_ex (\<lambda>p. p = Some (Identifier relayImportName)) (xs @ [Some (Identifier relayImportName)])"
  by (simp add: list_ex_iff)

lemma configureVite_ExportDefaultDeclaration_result:
  assumes "configureVite_ExportDefaultDeclaration declaration = Inr declaration'"
  shows "\<exists>callee before key vitePlugins after arguments.
           declaration' =
             CallExpression callee
               (ObjectExpression (before @ ObjectProperty key (ArrayExpression vitePlugins) # after) # arguments) \<and>
           callee = Identifier ''defineConfig'' \<and>
           \<not> list_ex (isPropertyNamed ''plugins'') before \<and>
           isPropertyNamed ''plugins'' (ObjectProperty key (ArrayExpression vitePlugins)) \<and>
           list_ex (\<lambda>p. p = Some (Identifier relayImportName)) vitePlugins"
proof -
  from assms obtain callee arguments where d: "declaration = CallExpression callee arguments"
    by (cases "declaration") (simp_all add: configureVite_ExportDefaultDeclaration_def)
  from assms d have c: "arguments \<noteq> []" "callee = Identifier ''defineConfig''"
    by (auto simp: configureVite_ExportDefaultDeclaration_def split: if_splits)
  from assms d c obtain properties where h: "hd arguments = ObjectExpression properties"
    by (cases "hd arguments") (simp_all add: configureVite_ExportDefaultDeclaration_def)
  show ?thesis
  proof (cases "List.extract (isPropertyNamed ''plugins'') properties")
    case None
    then have n: "\<not> list_ex (isPropertyNamed ''plugins'') properties"
      by (simp add: extract_None_iff list_ex_iff)
    have "declaration' = CallExpression callee
             (ObjectExpression (properties @ ObjectProperty (Identifier ''plugins'')
                 (ArrayExpression [Some (Identifier relayImportName)]) # []) # tl arguments)"
      using assms d c h None by (simp add: configureVite_ExportDefaultDeclaration_def)
    then show ?thesis using n c
      by (intro exI [of _ callee] exI [of _ properties] exI [of _ "Identifier ''plugins''"]
          exI [of _ "[Some (Identifier relayImportName)]"] exI [of _ "[]"] exI [of _ "tl arguments"])
         (simp add: isPropertyNamed_def)
  next
    case (Some found)
    then obtain before pluginsProperty after where f: "found = (before, pluginsProperty, after)"
      by (cases found) auto
    from Some f have e: "properties = before @ pluginsProperty # after"
        "isPropertyNamed ''plugins'' pluginsProperty" "\<not> list_ex (isPropertyNamed ''plugins'') before"
      by (auto simp: extract_Some_iff list_ex_iff)
    from assms d c h Some f obtain key vitePlugins
      where p: "pluginsProperty = ObjectProperty key (ArrayExpression vitePlugins)"
      by (auto simp: configureVite_ExportDefaultDeclaration_def split: node.splits)
    show ?thesis
    proof (cases "list_ex (\<lambda>p. p = Some (Identifier relayImportName)) vitePlugins")
      case True
      then have "declaration' = CallExpression callee
             (ObjectExpression (before @ ObjectProperty key (ArrayExpression vitePlugins) # after) # tl arguments)"
        using assms d c h Some f p by (simp add: configureVite_ExportDefaultDeclaration_def)
      then show ?thesis using True e c p by blast
    next
      case False
      then have "declaration' = CallExpression callee
             (ObjectExpression (before @ ObjectProperty key
                 (ArrayExpression (vitePlugins @ [Some (Identifier relayImportName)])) # after) # tl arguments)"
        using assms d c h Some f p by (simp add: configureVite_ExportDefaultDeclaration_def)
      then show ?thesis using e c p relay_listed [of vitePlugins] isPropertyNamed_key
        by blast
    qed
  qed
qed

lemma configureVite_ExportDefaultDeclaration_fixed:
  assumes "declaration' =
             CallExpression callee
               (ObjectExpression (before @ ObjectProperty key (ArrayExpression vitePlugins) # after) # arguments)"
    and "callee = Identifier ''defineConfig''"
    and "\<not> list_ex (isPropertyNamed ''plugins'') before"
    and "isPropertyNamed ''plugins'' (ObjectProperty key (ArrayExpression vitePlugins))"
    and "list_ex (\<lambda>p. p = Some (Identifier relayImportName)) vitePlugins"
  shows "configureVite_ExportDefaultDeclaration declaration' = Inr declaration'"
  using assms by (simp add: configureVite_ExportDefaultDeclaration_def extract_first)

lemma configureVite_ExportDefaultDeclaration_idempotent:
  "configureVite_ExportDefaultDeclaration declaration = Inr declaration' \<Longrightarrow>
   configureVite_ExportDefaultDeclaration declaration' = Inr declaration'"
  using configureVite_ExportDefaultDeclaration_result [of "declaration" "declaration'"]
    configureVite_ExportDefaultDeclaration_fixed by blast

lemma visit_exports_idempotent:
  "visit_exports body = Inr body' \<Longrightarrow> visit_exports body' = Inr body'"
proof (induction body arbitrary: body')
  case Nil
  then show ?case by simp
next
  case (Cons s ss)
  from Cons.prems obtain s' ss' where b: "body' = s' # ss'" "visit_exports ss = Inr ss'"
    and s: "(case s of
              ExportDefaultDeclaration declaration \<Rightarrow>
                (case configureVite_ExportDefaultDeclaration declaration of
                   Inl e \<Rightarrow> Inl e
                 | Inr declaration' \<Rightarrow> Inr (ExportDefaultDeclaration declaration'))
            | _ \<Rightarrow> Inr s) = Inr s'"
    by (auto split: sum.splits)
  have "(case s' of
              ExportDefaultDeclaration declaration \<Rightarrow>
                (case configureVite_ExportDefaultDeclaration declaration of
                   Inl e \<Rightarrow> Inl e
                 | Inr declaration' \<Rightarrow> Inr (ExportDefaultDeclaration declaration'))
            | _ \<Rightarrow> Inr s') = Inr s'"
    using s by (cases s) (auto split: sum.splits dest: configureVite_ExportDefaultDeclaration_idempotent)
  then show ?case using Cons.IH [OF b(2)] b by simp
qed

lemma visit_exports_imports:
  "visit_exports body = Inr body' \<Longrightarrow> hasRelayImport body' = hasRelayImport body"
proof (induction body arbitrary: body')
  case Nil
  then show ?case by simp
next
  case (Cons s ss)
  from Cons.prems obtain s' ss' where b: "body' = s' # ss'" "visit_exports ss = Inr ss'"
    and s: "(case s of
              ExportDefaultDeclaration declaration \<Rightarrow>
                (case configureVite_ExportDefaultDeclaration declaration of
                   Inl e \<Rightarrow> Inl e
                 | Inr declaration' \<Rightarrow> Inr (ExportDefaultDeclaration declaration'))
            | _ \<Rightarrow> Inr s) = Inr s'"
    by (auto split: sum.splits)
  have "(\<exists>d d'. s = ExportDefaultDeclaration d \<and> s' = ExportDefaultDeclaration d') \<or> s' = s"
    using s by (cases s) (auto split: sum.splits)
  then show ?case using Cons.IH [OF b(2)] b by (auto simp: hasRelayImport_def)
qed

lemma hasRelayImport_Program: "hasRelayImport (configureVite_Program body)"
  by (simp add: configureVite_Program_def hasRelayImport_def)

lemma configureVite_traverse_idempotent:
  assumes "configureVite_traverse ast = Inr ast'"
  shows "configureVite_traverse ast' = Inr ast'"
proof (cases ast)
  case (Program body)
  with assms obtain body' where b: "visit_exports (configureVite_Program body) = Inr body'" "ast' = Program body'"
    by (auto simp: configureVite_traverse_def split: sum.splits)
  have "hasRelayImport body'"
    using visit_exports_imports [OF b(1)] hasRelayImport_Program by simp
  then have "configureVite_Program body' = body'" by (simp add: configureVite_Program_def)
  then show ?thesis using visit_exports_idempotent [OF b(1)] b(2) by (simp add: configureVite_traverse_def)
qed (use assms in \<open>auto simp: configureVite_traverse_def\<close>)

lemma configureVite_ExportDefaultDeclaration_lists:
  assumes "configureVite_ExportDefaultDeclaration d = Inr d'"
  shows "listsRelay d'"
proof -
  obtain callee before key vitePlugins after arguments where
    "d' = CallExpression callee
               (ObjectExpression (before @ ObjectProperty key (ArrayExpression vitePlugins) # after) # arguments)"
    "\<not> list_ex (isPropertyNamed ''plugins'') before"
    "isPropertyNamed ''plugins'' (ObjectProperty key (ArrayExpression vitePlugins))"
    "list_ex (\<lambda>p. p = Some (Identifier relayImportName)) vitePlugins"
    using configureVite_ExportDefaultDeclaration_result [OF assms] by blast
  then show ?thesis by (simp add: listsRelay_def extract_first list_ex_iff)
qed

lemma visit_exports_lists:
  "visit_exports body = Inr body' \<Longrightarrow> ExportDefaultDeclaration d' \<in> set body' \<Longrightarrow> listsRelay d'"
proof (induction body arbitrary: body')
  case Nil
  then show ?case by simp
next
  case (Cons s ss)
  from Cons.prems(1) obtain s' ss' where b: "body' = s' # ss'" "visit_exports ss = Inr ss'"
    and s: "(case s of
              ExportDefaultDeclaration declaration \<Rightarrow>
                (case configureVite_ExportDefaultDeclaration declaration of
                   Inl e \<Rightarrow> Inl e
                 | Inr declaration' \<Rightarrow> Inr (ExportDefaultDeclaration declaration'))
            | _ \<Rightarrow> Inr s) = Inr s'"
    by (auto split: sum.splits)
  show ?case
  proof (cases "ExportDefaultDeclaration d' = s'")
    case True
    then obtain d0 where "configureVite_ExportDefaultDeclaration d0 = Inr d'"
      using s by (cases s) (auto split: sum.splits)
    then show ?thesis by (rule configureVite_ExportDefaultDeclaration_lists)
  next
    case False
    then have "ExportDefaultDeclaration d' \<in> set ss'" using Cons.prems(2) b by auto
    then show ?thesis using Cons.IH [OF b(2)] by blast
  qed
qed

lemma writeFile_reads:
  "readdir (writeFile fs p c) = readdir fs" "readFile (writeFile fs p c) p = Some c"
  by (simp_all add: writeFile_def)

lemma configureVite_ExportDefaultDeclaration_succeeds:
  assumes "definesConfig d" and "pluginsIsArray d"
  shows "\<exists>d'. configureVite_ExportDefaultDeclaration d = Inr d'"
proof -
  from assms(1) obtain properties arguments
    where d: "d = CallExpression (Identifier ''defineConfig'') (ObjectExpression properties # arguments)"
    by (auto simp: definesConfig_def split: node.splits list.splits)
  show ?thesis
  proof (cases "List.extract (isPropertyNamed ''plugins'') properties")
    case None
    then show ?thesis by (simp add: d configureVite_ExportDefaultDeclaration_def)
  next
    case (Some found)
    with assms(2) d obtain before key vitePlugins after
      where "found = (before, ObjectProperty key (ArrayExpression vitePlugins), after)"
      by (auto simp: pluginsIsArray_def split: node.splits prod.splits)
    then show ?thesis using Some by (simp add: d configureVite_ExportDefaultDeclaration_def)
  qed
qed

lemma visit_exports_succeeds:
  "(\<And>d. ExportDefaultDeclaration d \<in> set body \<Longrightarrow> definesConfig d \<and> pluginsIsArray d) \<Longrightarrow>
   \<exists>body'. visit_exports body = Inr body'"
proof (induction body)
  case Nil
  show ?case by simp
next
  case (Cons s ss)
  have "\<exists>ss'. visit_exports ss = Inr ss'" using Cons by simp
  then obtain ss' where ss: "visit_exports ss = Inr ss'" by blast
  have "\<exists>s'. (case s of
              ExportDefaultDeclaration declaration \<Rightarrow>
                (case configureVite_ExportDefaultDeclaration declaration of
                   Inl e \<Rightarrow> Inl e
                 | Inr declaration' \<Rightarrow> Inr (ExportDefaultDeclaration declaration'))
            | _ \<Rightarrow> Inr s) = Inr s'"
  proof (cases s)
    case (ExportDefaultDeclaration d)
    then have "definesConfig d \<and> pluginsIsArray d" using Cons.prems by simp
    then obtain d' where "configureVite_ExportDefaultDeclaration d = Inr d'"
      using configureVite_ExportDefaultDeclaration_succeeds by blast
    then show ?thesis using ExportDefaultDeclaration by simp
  qed simp_all
  then show ?case using ss by auto
qed

lemma visit_exports_related:
  "visit_exports body = Inr body' \<Longrightarrow>
   list_all2
     (\<lambda>s s'. case s of
                ExportDefaultDeclaration d \<Rightarrow>
                  (\<exists>d'. s' = ExportDefaultDeclaration d' \<and> configureVite_ExportDefaultDeclaration d = Inr d')
              | _ \<Rightarrow> s' = s)
     body body'"
proof (induction body arbitrary: body')
  case Nil
  then show ?case by simp
next
  case (Cons s ss)
  from Cons.prems obtain s' ss' where b: "body' = s' # ss'" "visit_exports ss = Inr ss'"
    and s: "(case s of
              ExportDefaultDeclaration declaration \<Rightarrow>
                (case configureVite_ExportDefaultDeclaration declaration of
                   Inl e \<Rightarrow> Inl e
                 | Inr declaration' \<Rightarrow> Inr (ExportDefaultDeclaration declaration'))
            | _ \<Rightarrow> Inr s) = Inr s'"
    by (auto split: sum.splits)
  have "(case s of
           ExportDefaultDeclaration d \<Rightarrow>
             (\<exists>d'. s' = ExportDefaultDeclaration d' \<and> configureVite_ExportDefaultDeclaration d = Inr d')
         | _ \<Rightarrow> s' = s)"
    using s by (cases s) (auto split: sum.splits)
  then show ?case using Cons.IH [OF b(2)] b(1) by simp
qed

lemma list_ex_relay:
  "list_ex (\<lambda>p. p = Some (Identifier relayImportName)) elements \<longleftrightarrow> Some (Identifier ''relay'') \<in> set elements"
  by (auto simp: list_ex_iff relayImportName_def)

text \<open>
  C1, as the code has it. Take a Vite configuration file that is found, read and parsed to a
  program in which every default export is a call \<open>defineConfig({ ... })\<close> whose object, if it
  has a \<open>plugins\<close> property, holds an array expression in the first one; and let the printer
  and the parser agree on the tree that the traversal of this file gives: its printed text
  parses back to it, and prints again as the same text.

  The visitor of the default export works as follows: an object without a \<open>plugins\<close> property gets
  \<open>plugins: [relay]\<close> appended; an array that lists the identifier \<open>relay\<close> is left as it is; an
  array that does not gets \<open>relay\<close> appended after its elements.

  Then the first run succeeds: the traversal returns a program that has the \<open>relay\<close> import, in
  which every default export lists the identifier \<open>relay\<close> in \<open>plugins\<close>, and whose statements
  are those of the program parsed (after the \<open>relay\<close> import if it was missing), each default
  export replaced by what the visitor returns for it; the run writes the printed text of this
  program to the configuration file. The traversal changes nothing in that program, and a
  second run, on the file system that the first run left, writes the same text to the same
  file.
\<close>

theorem configureVite_idempotent:
  assumes found:
      "existingFile
         (findFileInDirectory (readdir fs) (projectRootDirectory settings)
            (VITE_CONFIG_FILE_NO_EXT @ (if useTypescript settings then ''.ts'' else ''.js'')))
       = Some configFilepath"
    and read: "readFile fs configFilepath = Some configCode"
    and parsed: "parseAst configCode = Some (Program body)"
    and shape: "\<And>d. ExportDefaultDeclaration d \<in> set body \<Longrightarrow> definesConfig d \<and> pluginsIsArray d"
    and reparse: "\<And>ast'. configureVite_traverse (Program body) = Inr ast' \<Longrightarrow>
                    parseAst (printAst ast' configCode) = Some ast'"
    and reprint: "\<And>ast'. configureVite_traverse (Program body) = Inr ast' \<Longrightarrow>
                    printAst ast' (printAst ast' configCode) = printAst ast' configCode"
  shows
   "((\<forall>v. ObjectProperty (Identifier ''plugins'') v \<notin> set properties) \<longrightarrow>
       configureVite_ExportDefaultDeclaration
         (CallExpression (Identifier ''defineConfig'') (ObjectExpression properties # arguments)) =
       Inr (CallExpression (Identifier ''defineConfig'')
              (ObjectExpression
                 (properties @
                  [ObjectProperty (Identifier ''plugins'') (ArrayExpression [Some (Identifier ''relay'')])]) #
               arguments))) \<and>
    ((\<forall>v. ObjectProperty (Identifier ''plugins'') v \<notin> set before) \<longrightarrow>
       configureVite_ExportDefaultDeclaration
         (CallExpression (Identifier ''defineConfig'')
            (ObjectExpression
               (before @ ObjectProperty (Identifier ''plugins'') (ArrayExpression elements) # after) #
             arguments)) =
       Inr (CallExpression (Identifier ''defineConfig'')
              (ObjectExpression
                 (before @
                  ObjectProperty (Identifier ''plugins'')
                    (ArrayExpression
                       (if Some (Identifier ''relay'') \<in> set elements then elements
                        else elements @ [Some (Identifier ''relay'')])) #
                  after) #
               arguments))) \<and>
    (\<exists>body'.
       configureVite_traverse (Program body) = Inr (Program body') \<and>
       hasRelayImport body' \<and>
       (\<forall>d'. ExportDefaultDeclaration d' \<in> set body' \<longrightarrow> listsRelay d') \<and>
       list_all2
         (\<lambda>s s'. case s of
                    ExportDefaultDeclaration d \<Rightarrow>
                      (\<exists>d'. s' = ExportDefaultDeclaration d' \<and>
                            configureVite_ExportDefaultDeclaration d = Inr d')
                  | _ \<Rightarrow> s' = s)
         (if hasRelayImport body then body
          else ImportDeclaration [ImportDefaultSpecifier ''relay''] ''vite-plugin-relay'' # body)
         body' \<and>
       AddRelayPluginConfigurationTask_configureVite parseAst printAst settings fs =
         (Inr (), writeFile fs configFilepath (printAst (Program body') configCode)) \<and>
       configureVite_traverse (Program body') = Inr (Program body') \<and>
       AddRelayPluginConfigurationTask_configureVite parseAst printAst settings
           (writeFile fs configFilepath (printAst (Program body') configCode)) =
         (Inr (),
          writeFile (writeFile fs configFilepath (printAst (Program body') configCode))
            configFilepath (printAst (Program body') configCode)))"
proof -
  have created: "configureVite_ExportDefaultDeclaration
         (CallExpression (Identifier ''defineConfig'') (ObjectExpression properties # arguments)) =
       Inr (CallExpression (Identifier ''defineConfig'')
              (ObjectExpression
                 (properties @
                  [ObjectProperty (Identifier ''plugins'') (ArrayExpression [Some (Identifier ''relay'')])]) #
               arguments))"
    if "\<forall>v. ObjectProperty (Identifier ''plugins'') v \<notin> set properties"
  proof -
    have "\<not> list_ex (isPropertyNamed ''plugins'') properties"
      using that by (simp add: list_ex_isPropertyNamed)
    then have "List.extract (isPropertyNamed ''plugins'') properties = None" by (rule extract_none)
    then show ?thesis
      by (simp add: configureVite_ExportDefaultDeclaration_def relayImportName_def)
  qed
  have upserted: "configureVite_ExportDefaultDeclaration
         (CallExpression (Identifier ''defineConfig'')
            (ObjectExpression
               (before @ ObjectProperty (Identifier ''plugins'') (ArrayExpression elements) # after) #
             arguments)) =
       Inr (CallExpression (Identifier ''defineConfig'')
              (ObjectExpression
                 (before @
                  ObjectProperty (Identifier ''plugins'')
                    (ArrayExpression
                       (if Some (Identifier ''relay'') \<in> set elements then elements
                        else elements @ [Some (Identifier ''relay'')])) #
                  after) #
               arguments))"
    if "\<forall>v. ObjectProperty (Identifier ''plugins'') v \<notin> set before"
  proof -
    have "\<not> list_ex (isPropertyNamed ''plugins'') before"
      using that by (simp add: list_ex_isPropertyNamed)
    moreover have "isPropertyNamed ''plugins'' (ObjectProperty (Identifier ''plugins'') (ArrayExpression elements))"
      by (simp add: isPropertyNamed_def)
    ultimately have "List.extract (isPropertyNamed ''plugins'')
                       (before @ ObjectProperty (Identifier ''plugins'') (ArrayExpression elements) # after) =
                     Some (before, ObjectProperty (Identifier ''plugins'') (ArrayExpression elements), after)"
      by (rule extract_first)
    then show ?thesis
      by (simp add: configureVite_ExportDefaultDeclaration_def list_ex_relay) (simp add: relayImportName_def)
  qed
  let ?find = "\<lambda>fs. existingFile
         (findFileInDirectory (readdir fs) (projectRootDirectory settings)
            (VITE_CONFIG_FILE_NO_EXT @ (if useTypescript settings then ''.ts'' else ''.js'')))"
  have "\<And>d. ExportDefaultDeclaration d \<in> set (configureVite_Program body) \<Longrightarrow>
          definesConfig d \<and> pluginsIsArray d"
    using shape by (auto simp: configureVite_Program_def split: if_splits)
  then obtain body' where v: "visit_exports (configureVite_Program body) = Inr body'"
    using visit_exports_succeeds by blast
  have t: "configureVite_traverse (Program body) = Inr (Program body')"
    using v by (simp add: configureVite_traverse_def)
  let ?text = "printAst (Program body') configCode"
  let ?fs1 = "writeFile fs configFilepath ?text"
  have run1: "AddRelayPluginConfigurationTask_configureVite parseAst printAst settings fs = (Inr (), ?fs1)"
    using found read parsed t by (simp add: AddRelayPluginConfigurationTask_configureVite_def)
  have imp: "hasRelayImport body'"
    using visit_exports_imports [OF v] hasRelayImport_Program by simp
  have lists: "\<forall>d'. ExportDefaultDeclaration d' \<in> set body' \<longrightarrow> listsRelay d'"
    using visit_exports_lists [OF v] by blast
  have rel: "list_all2
         (\<lambda>s s'. case s of
                    ExportDefaultDeclaration d \<Rightarrow>
                      (\<exists>d'. s' = ExportDefaultDeclaration d' \<and>
                            configureVite_ExportDefaultDeclaration d = Inr d')
                  | _ \<Rightarrow> s' = s)
         (if hasRelayImport body then body
          else ImportDeclaration [ImportDefaultSpecifier ''relay''] ''vite-plugin-relay'' # body)
         body'"
    using visit_exports_related [OF v] unfolding configureVite_Program_def relayImportName_def .
  have t1: "configureVite_traverse (Program body') = Inr (Program body')"
    using t by (rule configureVite_traverse_idempotent)
  have a1: "parseAst ?text = Some (Program body')" using t by (rule reparse)
  have s1: "printAst (Program body') ?text = ?text" using t by (rule reprint)
  have p1: "?find ?fs1 = Some configFilepath"
    using found by (simp add: writeFile_reads)
  have c1: "readFile ?fs1 configFilepath = Some ?text"
    by (simp add: writeFile_reads)
  have run2: "AddRelayPluginConfigurationTask_configureVite parseAst printAst settings ?fs1 =
             (Inr (), writeFile ?fs1 configFilepath ?text)"
    using p1 c1 a1 t1 s1 by (simp add: AddRelayPluginConfigurationTask_configureVite_def)
  have "\<exists>body'.
       configureVite_traverse (Program body) = Inr (Program body') \<and>
       hasRelayImport body' \<and>
       (\<forall>d'. ExportDefaultDeclaration d' \<in> set body' \<longrightarrow> listsRelay d') \<and>
       list_all2
         (\<lambda>s s'. case s of
                    ExportDefaultDeclaration d \<Rightarrow>
                      (\<exists>d'. s' = ExportDefaultDeclaration d' \<and>
                            configureVite_ExportDefaultDeclaration d = Inr d')
                  | _ \<Rightarrow> s' = s)
         (if hasRelayImport body then body
          else ImportDeclaration [ImportDefaultSpecifier ''relay''] ''vite-plugin-relay'' # body)
         body' \<and>
       AddRelayPluginConfigurationTask_configureVite parseAst printAst settings fs =
         (Inr (), writeFile fs configFilepath (printAst (Program body') configCode)) \<and>
       configureVite_traverse (Program body') = Inr (Program body') \<and>
       AddRelayPluginConfigurationTask_configureVite parseAst printAst settings
           (writeFile fs configFilepath (printAst (Program body') configCode)) =
         (Inr (),
          writeFile (writeFile fs configFilepath (printAst (Program body') configCode))
            configFilepath (printAst (Program body') configCode))"
    using t imp lists rel run1 t1 run2 by (intro exI [of _ body'] conjI)
  then show ?thesis using created upserted by (intro conjI impI)
qed

lemma vite_config_file: "path_join ''/app'' ''vite.config.js'' = ''/app/vite.config.js''"
  by (simp add: path_join_def path_normalize_def)

lemma vite_config_found:
  "existingFile
     (findFileInDirectory (readdir (vite_disk ast)) (projectRootDirectory vite_settings)
        (VITE_CONFIG_FILE_NO_EXT @ (if useTypescript vite_settings then ''.ts'' else ''.js'')))
   = Some ''/app/vite.config.js''"
  by (simp add: vite_settings_def VITE_CONFIG_FILE_NO_EXT_def existingFile_def findFileInDirectory_def
      vite_disk_def vite_config_file truthy_def)

lemma vite_first_run:
  "configureVite_traverse (Program (vite_config [Some (CallExpression (Identifier ''react'') [])])) =
     Inr (Program (relay_import #
            vite_config [Some (CallExpression (Identifier ''react'') []), Some (Identifier ''relay'')]))"
  by (simp add: configureVite_traverse_def configureVite_Program_def hasRelayImport_def vite_config_def
      relay_import_def relayImportName_def configureVite_ExportDefaultDeclaration_def extract_def
      isPropertyNamed_def)

theorem configureVite_idempotent_witness:
  "AddRelayPluginConfigurationTask_configureVite Some (\<lambda>ast code. ast) vite_settings
     (vite_disk (Program (vite_config [Some (CallExpression (Identifier ''react'') [])]))) =
   (Inr (),
    writeFile (vite_disk (Program (vite_config [Some (CallExpression (Identifier ''react'') [])])))
      ''/app/vite.config.js''
      (Program (relay_import #
          vite_config [Some (CallExpression (Identifier ''react'') []), Some (Identifier ''relay'')]))) \<and>
   AddRelayPluginConfigurationTask_configureVite Some (\<lambda>ast code. ast) vite_settings
     (writeFile (vite_disk (Program (vite_config [Some (CallExpression (Identifier ''react'') [])])))
        ''/app/vite.config.js''
        (Program (relay_import #
            vite_config [Some (CallExpression (Identifier ''react'') []), Some (Identifier ''relay'')]))) =
   (Inr (),
    writeFile
      (writeFile (vite_disk (Program (vite_config [Some (CallExpression (Identifier ''react'') [])])))
        ''/app/vite.config.js''
        (Program (relay_import #
            vite_config [Some (CallExpression (Identifier ''react'') []), Some (Identifier ''relay'')])))
      ''/app/vite.config.js''
      (Program (relay_import #
            vite_config [Some (CallExpression (Identifier ''react'') []), Some (Identifier ''relay'')])))"
proof -
  let ?body = "vite_config [Some (CallExpression (Identifier ''react'') [])]"
  let ?body' = "relay_import #
            vite_config [Some (CallExpression (Identifier ''react'') []), Some (Identifier ''relay'')]"
  have read: "readFile (vite_disk (Program ?body)) ''/app/vite.config.js'' = Some (Program ?body)"
    by (simp add: vite_disk_def)
  have shape: "definesConfig d \<and> pluginsIsArray d" if "ExportDefaultDeclaration d \<in> set ?body" for d
    using that by (auto simp: vite_config_def definesConfig_def pluginsIsArray_def extract_def isPropertyNamed_def)
  obtain body' where
    t: "configureVite_traverse (Program ?body) = Inr (Program body')" and
    r1: "AddRelayPluginConfigurationTask_configureVite Some (\<lambda>ast code. ast) vite_settings
           (vite_disk (Program ?body)) =
         (Inr (), writeFile (vite_disk (Program ?body)) ''/app/vite.config.js'' (Program body'))" and
    r2: "AddRelayPluginConfigurationTask_configureVite Some (\<lambda>ast code. ast) vite_settings
           (writeFile (vite_disk (Program ?body)) ''/app/vite.config.js'' (Program body')) =
         (Inr (),
          writeFile (writeFile (vite_disk (Program ?body)) ''/app/vite.config.js'' (Program body'))
            ''/app/vite.config.js'' (Program body'))"
    using configureVite_idempotent
            [where parseAst = Some and printAst = "\<lambda>ast code. ast" and settings = vite_settings
               and fs = "vite_disk (Program ?body)" and body = ?body,
             OF vite_config_found read refl shape, THEN conjunct2, THEN conjunct2]
    by auto
  have "body' = ?body'" using t unfolding vite_first_run by simp
  then show ?thesis using r1 r2 by simp
qed

text \<open>
  C1 as it was stated fails on a configuration of the recognized shape whose \<open>plugins\<close>
  property does not hold an array expression, here \<open>export default defineConfig({ plugins:
  basePlugins })\<close>: the first run adds no \<open>relay\<close> element, it fails with \<open>PluginsPropertyError\<close>
  and writes nothing.
\<close>

theorem configureVite_plugins_not_array:
  "definesConfig
     (CallExpression (Identifier ''defineConfig'')
        [ObjectExpression [ObjectProperty (Identifier ''plugins'') (Identifier ''basePlugins'')]]) \<and>
   AddRelayPluginConfigurationTask_configureVite Some (\<lambda>ast code. ast) vite_settings
     (vite_disk
        (Program
           [ExportDefaultDeclaration
              (CallExpression (Identifier ''defineConfig'')
                 [ObjectExpression [ObjectProperty (Identifier ''plugins'') (Identifier ''basePlugins'')]])])) =
   (Inl PluginsPropertyError,
    vite_disk
        (Program
           [ExportDefaultDeclaration
              (CallExpression (Identifier ''defineConfig'')
                 [ObjectExpression [ObjectProperty (Identifier ''plugins'') (Identifier ''basePlugins'')]])]))"
proof -
  let ?cfg = "Program
           [ExportDefaultDeclaration
              (CallExpression (Identifier ''defineConfig'')
                 [ObjectExpression [ObjectProperty (Identifier ''plugins'') (Identifier ''basePlugins'')]])]"
  have "configureVite_traverse ?cfg = Inl PluginsPropertyError"
    by (simp add: configureVite_traverse_def configureVite_Program_def hasRelayImport_def
        configureVite_ExportDefaultDeclaration_def extract_def isPropertyNamed_def)
  then have "AddRelayPluginConfigurationTask_configureVite Some (\<lambda>ast code. ast) vite_settings (vite_disk ?cfg) =
          (Inl PluginsPropertyError, vite_disk ?cfg)"
    using vite_config_found [of ?cfg]
    by (simp add: AddRelayPluginConfigurationTask_configureVite_def vite_disk_def)
  then show ?thesis by (simp add: definesConfig_def)
qed

section \<open>The traversal\<close>

text \<open>Trees and positions.\<close>

lemma weight_kid: "k \<in> set (kids n) \<Longrightarrow> weight k < weight n"
proof -
  assume "k \<in> set (kids n)"
  then have "weight k \<le> sum_list (map weight (kids n))"
    by (simp add: member_le_sum_list)
  then show ?thesis by (simp add: weight_kids [of n])
qed

lemma refill_present: "refill xs (present xs) = xs"
  by (induction xs rule: present.induct) auto

lemma opt_refill_kid: "opt_refill v (opt_kid v) = v"
  by (cases v) (simp_all add: opt_kid_def opt_refill_def)

lemma set_kids_kids: "set_kids n (kids n) = n"
  by (cases n) (simp_all add: refill_present opt_refill_kid)

text \<open>A traversal that meets no host leaves the tree and the state as they are.\<close>

lemma traverse_list_unchanged:
  "(\<And>k. k \<in> set ks \<Longrightarrow> traverse v parent st k = Inr (st, k)) \<Longrightarrow>
   traverse_list v parent st ks = Inr (st, ks)"
  by (induction ks) simp_all

lemma traverse_node:
  "traverse visitor parent st n =
     (case (case n of
              JSXElement name attributes closing children \<Rightarrow> visitor parent st n
            | _ \<Rightarrow> Inr (Descend st)) of
        Inl e \<Rightarrow> Inl e
      | Inr (Skip st' n') \<Rightarrow> Inr (st', n')
      | Inr (Descend st') \<Rightarrow>
          (case traverse_list visitor (Some n) st' (kids n) of
             Inl e \<Rightarrow> Inl e
           | Inr (st'', ks) \<Rightarrow> Inr (st'', set_kids n ks)))"
  by (rule traverse.simps)

lemma traverse_without_host:
  assumes quiet: "\<And>p m. \<not> isHost p \<Longrightarrow> v p st m = Inr (Descend st)"
  shows "(\<And>q. \<not> host_at isHost parent n q) \<Longrightarrow> traverse v parent st n = Inr (st, n)"
proof (induction "weight n" arbitrary: n parent rule: less_induct)
  case less
  have here: "(case n of JSXElement name attributes closing children \<Rightarrow> v parent st n
              | _ \<Rightarrow> Inr (Descend st)) = Inr (Descend st)"
    using less.prems [of "[]"] quiet [of parent n] by (cases n) auto
  have "traverse v (Some n) st k = Inr (st, k)" if k: "k \<in> set (kids n)" for k
  proof -
    obtain i where i: "i < length (kids n)" "kids n ! i = k"
      using k by (auto simp: in_set_conv_nth)
    have "\<not> host_at isHost (Some n) k q" for q
      using less.prems [of "i # q"] i by simp
    then show ?thesis using less.hyps [OF weight_kid [OF k]] by blast
  qed
  then have "traverse_list v (Some n) st (kids n) = Inr (st, kids n)"
    by (rule traverse_list_unchanged)
  then show ?case unfolding traverse_node [of v parent st n] here by (simp add: set_kids_kids)
qed

lemma hostVisitor_quiet:
  "\<not> isHost p \<Longrightarrow> hostVisitor isHost skipThrows p st m = Inr (Descend st)"
  by (simp add: hostVisitor_def)





text \<open>\<open>host_paths\<close> lists the positions of the hosts.\<close>

lemma host_paths_list_iff:
  "r \<in> set (host_paths_list isHost p i ks) \<longleftrightarrow>
   (\<exists>j q. r = (i + j) # q \<and> j < length ks \<and> q \<in> set (host_paths isHost p (ks ! j)))"
proof (induction ks arbitrary: i)
  case Nil
  show ?case by simp
next
  case (Cons k ks)
  show ?case
  proof
    assume "r \<in> set (host_paths_list isHost p i (k # ks))"
    then consider q where "r = i # q" "q \<in> set (host_paths isHost p k)"
      | "r \<in> set (host_paths_list isHost p (Suc i) ks)"
      by auto
    then show "\<exists>j q. r = (i + j) # q \<and> j < length (k # ks) \<and> q \<in> set (host_paths isHost p ((k # ks) ! j))"
    proof cases
      case 1
      then show ?thesis by (intro exI [of _ 0] exI [of _ q]) simp
    next
      case 2
      then obtain j q where "r = (Suc i + j) # q" "j < length ks" "q \<in> set (host_paths isHost p (ks ! j))"
        using Cons.IH [of "Suc i"] by blast
      then show ?thesis by (intro exI [of _ "Suc j"] exI [of _ q]) simp
    qed
  next
    assume "\<exists>j q. r = (i + j) # q \<and> j < length (k # ks) \<and> q \<in> set (host_paths isHost p ((k # ks) ! j))"
    then obtain j q where j: "r = (i + j) # q" "j < length (k # ks)"
        "q \<in> set (host_paths isHost p ((k # ks) ! j))"
      by blast
    show "r \<in> set (host_paths_list isHost p i (k # ks))"
    proof (cases j)
      case 0
      then show ?thesis using j by simp
    next
      case (Suc j')
      then have "r \<in> set (host_paths_list isHost p (Suc i) ks)"
        using j Cons.IH [of "Suc i"] by auto
      then show ?thesis by simp
    qed
  qed
qed

lemma host_paths_iff: "q \<in> set (host_paths isHost p n) \<longleftrightarrow> host_at isHost p n q"
proof (induction q arbitrary: p n)
  case Nil
  show ?case unfolding host_paths.simps(1) [of isHost p n] by (auto simp: host_paths_list_iff)
next
  case (Cons i q)
  show ?case unfolding host_paths.simps(1) [of isHost p n] using Cons.IH
    by (auto simp: host_paths_list_iff)
qed




section \<open>No anchor\<close>

text \<open>
  What C2 says holds for the two methods of \<open>AddRelayEnvironmentProviderTask\<close>: when the file
  has no JSX element under a return statement (\<open>configureNext\<close>), or none passed to a call of
  \<open>render\<close> (\<open>configureViteOrCra\<close>), the method throws and the file system is as it was.
\<close>

lemma configureHost_without_anchor:
  assumes "readFile fs (abs_path (mainFile context)) = Some code"
    and "parseAst code = Some ast"
    and "\<And>q. \<not> host_at isHost None ast q"
  shows "configureHost (hostVisitor isHost) notFound skipThrows parseAst printAst context fs =
           (Inl notFound, fs)"
proof -
  let ?st = "\<lparr>providerWrapped = False, programBody = bodyOf ast, skipReason = None\<rparr>"
  have "traverse (hostVisitor isHost skipThrows) None ?st ast = Inr (?st, ast)"
    using hostVisitor_quiet assms(3) by (rule traverse_without_host)
  then show ?thesis using assms(1,2) by (simp add: configureHost_def)
qed

lemma AddRelayEnvironmentProviderTask_without_anchor:
  assumes "readFile fs (abs_path (mainFile context)) = Some code" and "parseAst code = Some ast"
  shows "(\<And>q. \<not> host_at isReturnStatement None ast q) \<Longrightarrow>
           AddRelayEnvironmentProviderTask_configureNext skipThrows parseAst printAst context fs =
             (Inl JsxNotFound, fs)"
    and "(\<And>q. \<not> host_at isRenderCall None ast q) \<Longrightarrow>
           AddRelayEnvironmentProviderTask_configureViteOrCra skipThrows parseAst printAst context fs =
             (Inl RenderJsxNotFound, fs)"
  unfolding AddRelayEnvironmentProviderTask_configureNext_def
    AddRelayEnvironmentProviderTask_configureViteOrCra_def
    configureNext_JSXElement_def configureViteOrCra_JSXElement_def
  using assms by (auto intro: configureHost_without_anchor)

lemma withImports_same: "withImports ast (bodyOf ast) ast = ast"
  by (cases ast) (simp_all add: withImports_def bodyOf_def)

text \<open>
  C2 fails on \<open>AddRelayEnvironmentTask.configureVite\<close>, the second place the claim names. Its
  visitor keeps no flag and the method has no test after the traversal: when the main file has
  no JSX element passed to a call of \<open>render\<close>, the method copies the environment file, prints
  the tree as it was parsed, writes it to the main file and returns without an error.
\<close>

theorem AddRelayEnvironmentTask_writes_without_anchor:
  assumes "addRelayEnvironmentFile settings envFileNoExt fs = Some fs1"
    and "existingFile
           (findFileInDirectory (readdir fs1)
              (dirname (path_join (projectRootDirectory settings)
                          (mainFileNoExt @ (if useTypescript settings then ''.tsx'' else ''.jsx''))))
              (basename (mainFileNoExt @ (if useTypescript settings then ''.tsx'' else ''.jsx''))))
         = Some mainFilePath"
    and "readFile fs1 mainFilePath = Some mainCode"
    and "parseAst mainCode = Some ast"
    and "\<And>q. \<not> host_at isRenderCall None ast q"
  shows "AddRelayEnvironmentTask_configureVite envFileNoExt mainFileNoExt dirname basename
           parseAst printAst settings fs =
         (Inr (), writeFile fs1 mainFilePath (printAst ast mainCode))"
proof -
  have "traverse configureVite_JSXElement None (bodyOf ast) ast = Inr (bodyOf ast, ast)"
  proof (rule traverse_without_host [where isHost = isRenderCall])
    show "\<And>p m. \<not> isRenderCall p \<Longrightarrow> configureVite_JSXElement p (bodyOf ast) m = Inr (Descend (bodyOf ast))"
      by (simp add: configureVite_JSXElement_def)
    show "\<And>q. \<not> host_at isRenderCall None ast q" by (rule assms(5))
  qed
  then show ?thesis
    using assms(1-4) by (simp add: AddRelayEnvironmentTask_configureVite_def Let_def withImports_same)
qed

lemma main_paths:
  "path_join ''/pkg'' ''./assets/env'' = ''/pkg/assets/env''"
  "path_join ''/app'' ''src/RelayEnvironment.js'' = ''/app/src/RelayEnvironment.js''"
  "path_join ''/app'' ''src/main.jsx'' = ''/app/src/main.jsx''"
  "path_join ''/app/src'' ''main.jsx'' = ''/app/src/main.jsx''"
  "sample_dirname ''/app/src/main.jsx'' = ''/app/src''"
  "sample_basename ''src/main.jsx'' = ''main.jsx''"
  "path_join ''/app/src/RelayEnvironment.js'' ''..'' = ''/app/src''"
  by (simp_all add: path_join_def path_normalize_def sample_dirname_def sample_basename_def)

lemma mount_main_hosts: "host_paths isRenderCall None mount_main = []"
  by (simp add: host_paths.simps(1) mount_main_def isRenderCall_def)

theorem AddRelayEnvironmentTask_writes_without_anchor_witness:
  "AddRelayEnvironmentTask_configureVite ''src/RelayEnvironment'' ''src/main'' sample_dirname sample_basename
     Some (\<lambda>ast code. ast) vite_settings main_disk =
   (Inr (),
    writeFile (writeFile main_disk ''/app/src/RelayEnvironment.js'' (Program []))
      ''/app/src/main.jsx'' mount_main)"
proof -
  let ?fs1 = "writeFile main_disk ''/app/src/RelayEnvironment.js'' (Program [])"
  have 1: "addRelayEnvironmentFile vite_settings ''src/RelayEnvironment'' main_disk = Some ?fs1"
    by (simp add: addRelayEnvironmentFile_def vite_settings_def main_paths copyFile_def main_disk_def
        directoryPresent_def parentDirectory_def)
  have 2: "existingFile
           (findFileInDirectory (readdir ?fs1)
              (sample_dirname (path_join (projectRootDirectory vite_settings)
                          (''src/main'' @ (if useTypescript vite_settings then ''.tsx'' else ''.jsx''))))
              (sample_basename (''src/main'' @ (if useTypescript vite_settings then ''.tsx'' else ''.jsx''))))
         = Some ''/app/src/main.jsx''"
    by (simp add: vite_settings_def main_paths writeFile_def main_disk_def findFileInDirectory_def
        existingFile_def truthy_def)
  have 3: "readFile ?fs1 ''/app/src/main.jsx'' = Some mount_main"
    by (simp add: writeFile_def main_disk_def)
  have 4: "Some mount_main = Some mount_main" by simp
  have 5: "\<not> host_at isRenderCall None mount_main q" for q
    unfolding host_paths_iff [symmetric] mount_main_hosts by simp
  show ?thesis
    using AddRelayEnvironmentTask_writes_without_anchor
            [of vite_settings "''src/RelayEnvironment''" main_disk ?fs1 sample_dirname "''src/main''"
                sample_basename "''/app/src/main.jsx''" mount_main Some mount_main "\<lambda>ast code. ast",
             OF 1 2 3 4 5]
    by simp
qed

end
